theory Spec2Isabelle
  imports Main "HOL-Library.Word"
begin

section \<open>Errors, results and the state-and-exception monad\<close>

text \<open>
  The classes \<open>Hosts\<close> (hosts.ts) and \<open>Users\<close> (users.ts) are modelled. Every method is
  asynchronous and may throw; a method is a function from the state it can reach to a
  result (\<open>Inl\<close> the error thrown, \<open>Inr\<close> the value returned) and the state it leaves.
  A thrown error keeps the mutations made before the \<open>throw\<close>, as in the source.
\<close>

datatype error =
    NoSuchEntryError
  | AuthorizationError
  | AuthenticationError
  | NotActivatedError
  | ExpiredTokenError
  | Error string
  | TypeError

type_synonym ('s, 'a) io = "'s \<Rightarrow> (error + 'a) \<times> 's"

definition return :: "'a \<Rightarrow> ('s, 'a) io" where
  "return x = (\<lambda>s. (Inr x, s))"

definition throw :: "error \<Rightarrow> ('s, 'a) io" where
  "throw e = (\<lambda>s. (Inl e, s))"

definition io_bind :: "('s, 'a) io \<Rightarrow> ('a \<Rightarrow> ('s, 'b) io) \<Rightarrow> ('s, 'b) io" where
  "io_bind m f = (\<lambda>s. case m s of (Inl e, s') \<Rightarrow> (Inl e, s') | (Inr x, s') \<Rightarrow> f x s')"

text \<open>\<open>try { m } catch (e) { h e }\<close>\<close>

definition try_catch :: "('s, 'a) io \<Rightarrow> (error \<Rightarrow> ('s, 'a) io) \<Rightarrow> ('s, 'a) io" where
  "try_catch m h = (\<lambda>s. case m s of (Inl e, s') \<Rightarrow> h e s' | (Inr x, s') \<Rightarrow> (Inr x, s'))"

text \<open>A call of a synchronous function that returns a value or throws.\<close>

definition of_result :: "error + 'a \<Rightarrow> ('s, 'a) io" where
  "of_result r = (case r of Inl e \<Rightarrow> throw e | Inr x \<Rightarrow> return x)"

text \<open>\<open>xs.forEach(f)\<close>: the calls of \<open>f\<close> in order, stopped by the first that throws.\<close>

fun forEach :: "'x list \<Rightarrow> ('x \<Rightarrow> ('s, unit) io) \<Rightarrow> ('s, unit) io" where
  "forEach [] f = return ()"
| "forEach (x # xs) f = io_bind (f x) (\<lambda>_. forEach xs f)"

text \<open>
  A local array: \<open>const a = []; ...; return a\<close>, the statements in between running on the
  array as their state, and \<open>a.push(x)\<close>.
\<close>

definition with_array :: "('x list, unit) io \<Rightarrow> error + 'x list" where
  "with_array m = (case m [] of (Inl e, a) \<Rightarrow> Inl e | (Inr u, a) \<Rightarrow> Inr a)"

definition push :: "'x \<Rightarrow> ('x list, unit) io" where
  "push x = (\<lambda>a. (Inr (), a @ [x]))"

section \<open>Tables\<close>

text \<open>
  The schema (schema.sql) is not among the sources; the columns are those the
  statements of the two classes name. Nullable columns are options. Timestamps are
  milliseconds since the epoch. The constraints of the schema (uniqueness, foreign keys
  and their actions) are not modelled: a table is the list of its rows in the order a
  sequential scan returns them.
\<close>

datatype Language = ko | en

record users_row =
  users_idx :: int
  users_username :: "string option"
  users_password_digest :: string
  users_name :: string
  users_uid :: int
  users_shell :: "string option"
  users_preferred_language :: Language
  users_activated :: bool
  users_last_login_at :: "int option"

record email_addresses_row =
  owner_idx :: "int option"
  address_local :: string
  address_domain :: string

record password_change_tokens_row =
  tokens_user_idx :: int
  tokens_token :: string
  tokens_expires :: int
  tokens_resend_count :: int

record host_groups_row =
  host_groups_idx :: int
  host_groups_name :: string
  required_permission :: "int option"

section \<open>The transaction\<close>

text \<open>
  The class \<open>Transaction\<close> (transaction.ts) is not among the sources. A transaction is
  modelled as the texts of the statements it has issued, in issue order, the value of SQL
  \<open>NOW()\<close> (fixed for a transaction), its view of the tables, and the next value of the
  serial column \<open>users.idx\<close>. Its assertion \<open>ensureHasAccessExclusiveLock\<close> is a parameter
  (below).
\<close>

record Transaction =
  issued :: "string list"
  now :: int
  users_table :: "users_row list"
  users_idx_seq :: int
  email_addresses_table :: "email_addresses_row list"
  password_change_tokens_table :: "password_change_tokens_row list"
  host_groups_table :: "host_groups_row list"

text \<open>
  Modelled from the spec: \<open>Transaction.query\<close>, which the spec gives as
  \<open>query(statement, params) -> rows\<close>, the statements of a transaction being observed in
  issue order. \<open>query sql run\<close> runs the meaning \<open>run\<close> of the statement on the tables and
  records its text \<open>sql\<close>; the parameters are arguments of \<open>run\<close>.
\<close>

definition query :: "string \<Rightarrow> (Transaction \<Rightarrow> 'r \<times> Transaction) \<Rightarrow> (Transaction, 'r) io" where
  "query sql run = (\<lambda>tr. case run tr of (rows, tr') \<Rightarrow> (Inr rows, tr'\<lparr>issued := issued tr' @ [sql]\<rparr>))"

section \<open>Configuration and collaborators\<close>

type_synonym byte = "8 word"

text \<open>A JavaScript string is a sequence of UTF-16 code units.\<close>

type_synonym jsstring = "16 word list"

record phc =
  phc_id :: string
  phc_salt :: "byte list option"
  phc_hash :: "byte list option"

text \<open>
  \<open>env\<close> collects what the two classes read from outside themselves: the configuration
  (\<open>this.model.config\<close>), the constant \<open>posixAccountObjectClass\<close> of ldap/types, the
  permission model (\<open>this.model.permissions\<close>), the assertion
  \<open>tr.ensureHasAccessExclusiveLock(table)\<close> of the transaction (\<open>None\<close> when the call
  returns, \<open>Some e\<close> when it throws \<open>e\<close>), the imported libraries (argon2,
  @phc/format, moment, the hash primitives and the random source of crypto), the column
  defaults of the schema that the INSERT statements rely on, and the function \<open>LOWER\<close>
  of the database, which depends on its locale. Each library function stands for the
  value the call returned: \<open>hash_primitive alg bs\<close> is the digest of the hash primitive
  \<open>alg\<close> over the bytes \<open>bs\<close>, \<open>moment\<close> is the client's clock when
  \<open>moment()\<close> is called.
\<close>

record env =
  ldap_usersOU :: string
  ldap_baseDN :: string
  posix_minUid :: int
  posix_homeDirectoryPrefix :: string
  posix_userGroupGid :: int
  posixAccountObjectClass :: "string list"
  checkUserHavePermission :: "Transaction \<Rightarrow> int \<Rightarrow> int \<Rightarrow> bool"
  ensureHasAccessExclusiveLock :: "Transaction \<Rightarrow> string \<Rightarrow> error option"
  argon2_hash :: "jsstring \<Rightarrow> string"
  argon2_verify :: "string \<Rightarrow> jsstring \<Rightarrow> bool"
  phc_deserialize :: "string \<Rightarrow> error + phc"
  hash_primitive :: "string \<Rightarrow> byte list \<Rightarrow> byte list"
  randomBytes :: "nat \<Rightarrow> error + byte list"
  moment :: int
  sql_LOWER :: "string \<Rightarrow> string"
  default_activated :: bool
  default_last_login_at :: "int option"
  default_resend_count :: int

section \<open>The class Users\<close>

record PosixAccount =
  attr_uid :: string
  attr_cn :: string
  attr_gecos :: string
  attr_homeDirectory :: string
  attr_loginShell :: string
  attr_objectClass :: "string list"
  attr_uidNumber :: int
  attr_gidNumber :: int

record SearchEntry =
  dn :: string
  attributes :: PosixAccount

record User =
  User_idx :: int
  User_username :: "string option"
  User_name :: string
  User_uid :: int
  User_shell :: "string option"
  User_preferredLanguage :: "Language option"

record Users =
  usersDN :: string
  posixAccountsCache :: "SearchEntry list option"

definition Users_constructor :: "env \<Rightarrow> Users" where
  "Users_constructor env =
     \<lparr>usersDN = ''ou='' @ ldap_usersOU env @ '','' @ ldap_baseDN env, posixAccountsCache = None\<rparr>"

text \<open>A method of \<open>Users\<close> sees the object and the transaction it is given.\<close>

definition in_tr :: "(Transaction, 'a) io \<Rightarrow> (Users \<times> Transaction, 'a) io" where
  "in_tr m = (\<lambda>(this, tr). case m tr of (r, tr') \<Rightarrow> (r, (this, tr')))"

text \<open>A call of a function that returns nothing or throws.\<close>

definition assertion :: "error option \<Rightarrow> ('s, unit) io" where
  "assertion r = (case r of None \<Rightarrow> return () | Some e \<Rightarrow> throw e)"

definition set_posixAccountsCache :: "SearchEntry list option \<Rightarrow> (Users \<times> Transaction, unit) io" where
  "set_posixAccountsCache v = (\<lambda>(this, tr). (Inr (), (this\<lparr>posixAccountsCache := v\<rparr>, tr)))"

subsection \<open>generateUid\<close>

text \<open>
  \<open>a RIGHT OUTER JOIN b ON c\<close>: every pair of rows that satisfies \<open>c\<close>, and every row
  of \<open>b\<close> that no row of \<open>a\<close> pairs with, once, with the columns of \<open>a\<close> null.
\<close>

definition right_outer_join :: "('a \<Rightarrow> 'b \<Rightarrow> bool) \<Rightarrow> 'a list \<Rightarrow> 'b list \<Rightarrow> ('a option \<times> 'b) list" where
  "right_outer_join on as bs =
     concat (map (\<lambda>b. case filter (\<lambda>a. on a b) as of
                          [] \<Rightarrow> [(None, b)]
                        | ms \<Rightarrow> map (\<lambda>a. (Some a, b)) ms) bs)"

text \<open>
  \<open>SELECT b.uid + 1 AS uid FROM users AS a RIGHT OUTER JOIN users AS b ON a.uid = b.uid + 1
  WHERE a.uid IS NULL AND b.uid + 1 >= $1 ORDER BY b.uid LIMIT 1\<close>
\<close>

definition select_new_uid :: "int \<Rightarrow> Transaction \<Rightarrow> int list \<times> Transaction" where
  "select_new_uid p1 tr =
     (map (\<lambda>(a, b). users_uid b + 1)
        (take 1
          (sort_key (\<lambda>(a, b). users_uid b)
            (filter (\<lambda>(a, b). map_option users_uid a = None \<and> users_uid b + 1 \<ge> p1)
              (right_outer_join (\<lambda>a b. users_uid a = users_uid b + 1) (users_table tr) (users_table tr))))),
      tr)"

text \<open>The rows of the join that the WHERE clause keeps.\<close>

definition gap_rows :: "int \<Rightarrow> users_row list \<Rightarrow> (users_row option \<times> users_row) list" where
  "gap_rows p1 us =
     filter (\<lambda>(a, b). map_option users_uid a = None \<and> users_uid b + 1 \<ge> p1)
       (right_outer_join (\<lambda>a b. users_uid a = users_uid b + 1) us us)"

definition generateUid :: "env \<Rightarrow> (Users \<times> Transaction, int) io" where
  "generateUid env =
     io_bind (in_tr (\<lambda>tr. assertion (ensureHasAccessExclusiveLock env tr ''users'') tr)) (\<lambda>_.
     let minUid = posix_minUid env in
     io_bind (in_tr (query (''SELECT b.uid + 1 AS uid FROM users AS a RIGHT OUTER JOIN '' @
       ''users AS b ON a.uid = b.uid + 1 WHERE a.uid IS NULL AND b.uid + 1 >= $1 ORDER BY b.uid LIMIT 1'')
       (select_new_uid minUid))) (\<lambda>getNewUidResult.
     return (case getNewUidResult of [] \<Rightarrow> minUid | r # _ \<Rightarrow> r)))"

text \<open>\<open>result.rows[0]\<close> is \<open>undefined\<close> on an empty result, and reading a column of it throws.\<close>

definition rows0 :: "'r list \<Rightarrow> ('s, 'r) io" where
  "rows0 rows = (case rows of [] \<Rightarrow> throw TypeError | r # _ \<Rightarrow> return r)"

subsection \<open>create and delete\<close>

text \<open>
  \<open>INSERT INTO users(username, password_digest, name, uid, shell, preferred_language)
  VALUES ($1, $2, $3, $4, $5, $6) RETURNING idx\<close>
\<close>

definition insert_user ::
  "env \<Rightarrow> string \<Rightarrow> string \<Rightarrow> string \<Rightarrow> int \<Rightarrow> string \<Rightarrow> Language \<Rightarrow> Transaction \<Rightarrow> int list \<times> Transaction" where
  "insert_user env p1 p2 p3 p4 p5 p6 tr =
     ([users_idx_seq tr],
      tr\<lparr>users_table := users_table tr @
            [\<lparr>users_idx = users_idx_seq tr, users_username = Some p1, users_password_digest = p2,
              users_name = p3, users_uid = p4, users_shell = Some p5, users_preferred_language = p6,
              users_activated = default_activated env, users_last_login_at = default_last_login_at env\<rparr>],
          users_idx_seq := users_idx_seq tr + 1\<rparr>)"

definition create ::
  "env \<Rightarrow> string \<Rightarrow> jsstring \<Rightarrow> string \<Rightarrow> string \<Rightarrow> Language \<Rightarrow> (Users \<times> Transaction, int) io" where
  "create env username password name shell preferredLanguage =
     (let passwordDigest = argon2_hash env password in
      io_bind (generateUid env) (\<lambda>uid.
      io_bind (in_tr (query (''INSERT INTO users(username, password_digest, name, uid, shell, preferred_language) '' @
          ''VALUES ($1, $2, $3, $4, $5, $6) RETURNING idx'')
          (insert_user env username passwordDigest name uid shell preferredLanguage))) (\<lambda>result.
      io_bind (set_posixAccountsCache None) (\<lambda>_.
      rows0 result))))"

text \<open>\<open>DELETE FROM users WHERE idx = $1 RETURNING idx\<close>\<close>

definition delete_user :: "int \<Rightarrow> Transaction \<Rightarrow> int list \<times> Transaction" where
  "delete_user p1 tr =
     (map users_idx (filter (\<lambda>r. users_idx r = p1) (users_table tr)),
      tr\<lparr>users_table := filter (\<lambda>r. users_idx r \<noteq> p1) (users_table tr)\<rparr>)"

definition delete :: "int \<Rightarrow> (Users \<times> Transaction, int) io" where
  "delete userIdx =
     io_bind (in_tr (query ''DELETE FROM users WHERE idx = $1 RETURNING idx'' (delete_user userIdx))) (\<lambda>result.
     if length result = 0 then throw NoSuchEntryError
     else io_bind (set_posixAccountsCache None) (\<lambda>_. rows0 result))"

subsection \<open>The directory projection\<close>

text \<open>
  \<open>SELECT idx, username, name, uid, shell FROM users\<close>: the column
  \<open>preferred_language\<close> is not selected, so \<open>rowToUser\<close> finds it undefined.
\<close>

type_synonym user_columns = "int \<times> string option \<times> string \<times> int \<times> string option \<times> Language option"

definition select_users :: "Transaction \<Rightarrow> user_columns list \<times> Transaction" where
  "select_users tr =
     (map (\<lambda>r. (users_idx r, users_username r, users_name r, users_uid r, users_shell r, None)) (users_table tr), tr)"

definition rowToUser :: "user_columns \<Rightarrow> User" where
  "rowToUser row = (case row of (i, u, n, d, s, l) \<Rightarrow>
     \<lparr>User_idx = i, User_username = u, User_name = n, User_uid = d, User_shell = s,
       User_preferredLanguage = l\<rparr>)"

definition getAll :: "(Users \<times> Transaction, User list) io" where
  "getAll =
     io_bind (in_tr (query ''SELECT idx, username, name, uid, shell FROM users'' select_users)) (\<lambda>result.
     of_result (with_array (forEach result (\<lambda>row. push (rowToUser row)))))"

definition userToPosixAccount :: "env \<Rightarrow> Users \<Rightarrow> User \<Rightarrow> error + SearchEntry" where
  "userToPosixAccount env this user =
     (case User_username user of
        None \<Rightarrow> Inl (Error ''Cannot convert to posixAccount'')
      | Some un \<Rightarrow>
         (case User_shell user of
            None \<Rightarrow> Inl (Error ''Cannot convert to posixAccount'')
          | Some sh \<Rightarrow>
             Inr \<lparr>dn = ''cn='' @ un @ '','' @ usersDN this,
                  attributes = \<lparr>attr_uid = un, attr_cn = un, attr_gecos = User_name user,
                    attr_homeDirectory = posix_homeDirectoryPrefix env @ ''/'' @ un,
                    attr_loginShell = sh, attr_objectClass = posixAccountObjectClass env,
                    attr_uidNumber = User_uid user, attr_gidNumber = posix_userGroupGid env\<rparr>\<rparr>))"

definition usersToPosixAccounts :: "env \<Rightarrow> Users \<Rightarrow> User list \<Rightarrow> error + SearchEntry list" where
  "usersToPosixAccounts env this users =
     with_array (forEach users (\<lambda>user.
       try_catch (io_bind (of_result (userToPosixAccount env this user)) push)
         (\<lambda>e. return ())))"

definition getAllAsPosixAccounts :: "env \<Rightarrow> (Users \<times> Transaction, SearchEntry list) io" where
  "getAllAsPosixAccounts env =
     (\<lambda>(this, tr). case posixAccountsCache this of
        None \<Rightarrow>
          io_bind getAll (\<lambda>all.
          io_bind (of_result (usersToPosixAccounts env this all)) (\<lambda>posixAccounts.
          io_bind (set_posixAccountsCache (Some posixAccounts)) (\<lambda>_.
          return posixAccounts))) (this, tr)
      | Some cache \<Rightarrow> return cache (this, tr))"

subsection \<open>getUserIdxByEmailAddress\<close>

text \<open>
  \<open>SELECT owner_idx FROM email_addresses WHERE LOWER(address_local) = LOWER($1)
  AND address_domain = $2\<close>
\<close>

definition select_email_owner :: "env \<Rightarrow> string \<Rightarrow> string \<Rightarrow> Transaction \<Rightarrow> int option list \<times> Transaction" where
  "select_email_owner env p1 p2 tr =
     (map owner_idx
        (filter (\<lambda>r. sql_LOWER env (address_local r) = sql_LOWER env p1 \<and> address_domain r = p2)
           (email_addresses_table tr)), tr)"

definition getUserIdxByEmailAddress :: "env \<Rightarrow> string \<Rightarrow> string \<Rightarrow> (Users \<times> Transaction, int option) io" where
  "getUserIdxByEmailAddress env emailLocal emailDomain =
     io_bind (in_tr (query
       ''SELECT owner_idx FROM email_addresses WHERE LOWER(address_local) = LOWER($1) AND address_domain = $2''
       (select_email_owner env emailLocal emailDomain))) (\<lambda>result.
     if length result = 0 then throw NoSuchEntryError else rows0 result)"

subsection \<open>Updates of one account\<close>

text \<open>\<open>UPDATE users SET last_login_at = NOW() WHERE idx = $1\<close>\<close>

definition update_last_login_at :: "int \<Rightarrow> Transaction \<Rightarrow> unit \<times> Transaction" where
  "update_last_login_at p1 tr =
     ((), tr\<lparr>users_table := map (\<lambda>r. if users_idx r = p1 then r\<lparr>users_last_login_at := Some (now tr)\<rparr> else r) (users_table tr)\<rparr>)"

definition updateLastLoginAt :: "int \<Rightarrow> (Users \<times> Transaction, unit) io" where
  "updateLastLoginAt userIdx =
     io_bind (in_tr (query ''UPDATE users SET last_login_at = NOW() WHERE idx = $1''
       (update_last_login_at userIdx))) (\<lambda>result. return ())"

text \<open>\<open>UPDATE users SET activated = TRUE WHERE idx = $1\<close>, and the same with \<open>FALSE\<close>\<close>

definition update_activated :: "bool \<Rightarrow> int \<Rightarrow> Transaction \<Rightarrow> unit \<times> Transaction" where
  "update_activated v p1 tr =
     ((), tr\<lparr>users_table := map (\<lambda>r. if users_idx r = p1 then r\<lparr>users_activated := v\<rparr> else r) (users_table tr)\<rparr>)"

definition activate :: "int \<Rightarrow> (Users \<times> Transaction, unit) io" where
  "activate userIdx =
     io_bind (in_tr (query ''UPDATE users SET activated = TRUE WHERE idx = $1''
       (update_activated True userIdx))) (\<lambda>result. return ())"

definition deactivate :: "int \<Rightarrow> (Users \<times> Transaction, unit) io" where
  "deactivate userIdx =
     io_bind (in_tr (query ''UPDATE users SET activated = FALSE WHERE idx = $1''
       (update_activated False userIdx))) (\<lambda>result. return ())"

text \<open>\<open>UPDATE users SET password_digest = $1 WHERE idx = $2 RETURNING idx\<close>\<close>

definition update_password_digest :: "string \<Rightarrow> int \<Rightarrow> Transaction \<Rightarrow> int list \<times> Transaction" where
  "update_password_digest p1 p2 tr =
     (map users_idx (filter (\<lambda>r. users_idx r = p2) (users_table tr)),
      tr\<lparr>users_table := map (\<lambda>r. if users_idx r = p2 then r\<lparr>users_password_digest := p1\<rparr> else r) (users_table tr)\<rparr>)"

definition changePassword :: "env \<Rightarrow> int \<Rightarrow> jsstring \<Rightarrow> (Users \<times> Transaction, int) io" where
  "changePassword env userIdx newPassword =
     (let passwordDigest = argon2_hash env newPassword in
      io_bind (in_tr (query ''UPDATE users SET password_digest = $1 WHERE idx = $2 RETURNING idx''
        (update_password_digest passwordDigest userIdx))) (\<lambda>result.
      if length result = 0 then throw NoSuchEntryError else rows0 result))"

text \<open>\<open>UPDATE users SET shell = $1 WHERE idx = $2 RETURNING idx\<close>\<close>

definition update_shell :: "string \<Rightarrow> int \<Rightarrow> Transaction \<Rightarrow> int list \<times> Transaction" where
  "update_shell p1 p2 tr =
     (map users_idx (filter (\<lambda>r. users_idx r = p2) (users_table tr)),
      tr\<lparr>users_table := map (\<lambda>r. if users_idx r = p2 then r\<lparr>users_shell := Some p1\<rparr> else r) (users_table tr)\<rparr>)"

definition changeShell :: "int \<Rightarrow> string \<Rightarrow> (Users \<times> Transaction, int) io" where
  "changeShell userIdx shell =
     io_bind (in_tr (query ''UPDATE users SET shell = $1 WHERE idx = $2 RETURNING idx''
       (update_shell shell userIdx))) (\<lambda>result.
     if length result = 0 then throw NoSuchEntryError
     else io_bind (set_posixAccountsCache None) (\<lambda>_. rows0 result))"

subsection \<open>authenticate\<close>














subsection \<open>Password-change tokens\<close>

text \<open>\<open>UPDATE password_change_tokens SET resend_count = 0 WHERE user_idx = $1 AND expires <= now()\<close>\<close>

definition reset_resend_count :: "int \<Rightarrow> Transaction \<Rightarrow> unit \<times> Transaction" where
  "reset_resend_count p1 tr =
     ((), tr\<lparr>password_change_tokens_table :=
            map (\<lambda>r. if tokens_user_idx r = p1 \<and> tokens_expires r \<le> now tr
                      then r\<lparr>tokens_resend_count := 0\<rparr> else r)
              (password_change_tokens_table tr)\<rparr>)"

definition resetResendCountIfExpired :: "int \<Rightarrow> (Users \<times> Transaction, unit) io" where
  "resetResendCountIfExpired userIdx =
     io_bind (in_tr (query
       ''UPDATE password_change_tokens SET resend_count = 0 WHERE user_idx = $1 AND expires <= now()''
       (reset_resend_count userIdx))) (\<lambda>_. return ())"

text \<open>
  \<open>INSERT INTO password_change_tokens AS p(user_idx, token, expires) VALUES ($1, $2, $3)
  ON CONFLICT (user_idx) DO UPDATE SET token = $2, resend_count = p.resend_count + 1, expires = $3\<close>:
  a row of the same \<open>user_idx\<close> is updated in place, and the row is inserted when there is none.
\<close>

definition upsert_password_change_token :: "env \<Rightarrow> int \<Rightarrow> string \<Rightarrow> int \<Rightarrow> Transaction \<Rightarrow> unit \<times> Transaction" where
  "upsert_password_change_token env p1 p2 p3 tr =
     ((), tr\<lparr>password_change_tokens_table :=
            (if list_ex (\<lambda>p. tokens_user_idx p = p1) (password_change_tokens_table tr) then
               map (\<lambda>p. if tokens_user_idx p = p1
                         then p\<lparr>tokens_token := p2, tokens_resend_count := tokens_resend_count p + 1,
                                tokens_expires := p3\<rparr>
                         else p)
                 (password_change_tokens_table tr)
             else
               password_change_tokens_table tr @
                 [\<lparr>tokens_user_idx = p1, tokens_token = p2, tokens_expires = p3,
                   tokens_resend_count = default_resend_count env\<rparr>])\<rparr>)"

definition asyncRandomBytes :: "env \<Rightarrow> nat \<Rightarrow> ('s, byte list) io" where
  "asyncRandomBytes env n = (case randomBytes env n of Inl err \<Rightarrow> throw err | Inr buf \<Rightarrow> return buf)"

definition hex_digit :: "nat \<Rightarrow> char" where
  "hex_digit d = (''0123456789abcdef'') ! d"

definition toString_hex :: "byte list \<Rightarrow> string" where
  "toString_hex buf = concat (map (\<lambda>b. [hex_digit (unat b div 16), hex_digit (unat b mod 16)]) buf)"

text \<open>\<open>moment().add(1, 'day')\<close>, a day being 24 hours (no change of the clock in between).\<close>

definition add_1_day :: "int \<Rightarrow> int" where
  "add_1_day t = t + 86400000"

definition generatePasswordChangeToken :: "env \<Rightarrow> int \<Rightarrow> (Users \<times> Transaction, string) io" where
  "generatePasswordChangeToken env userIdx =
     io_bind (resetResendCountIfExpired userIdx) (\<lambda>_.
     io_bind (asyncRandomBytes env 32) (\<lambda>randomBytes.
     let token = toString_hex randomBytes;
         expires = add_1_day (moment env)
     in io_bind (in_tr (query (''INSERT INTO password_change_tokens AS p(user_idx, token, expires) VALUES ($1, $2, $3) '' @
          ''ON CONFLICT (user_idx) DO UPDATE SET token = $2, resend_count = p.resend_count + 1, expires = $3'')
          (upsert_password_change_token env userIdx token expires))) (\<lambda>result.
        return token)))"

text \<open>\<open>SELECT resend_count FROM password_change_tokens WHERE token = $1\<close>\<close>

definition select_resend_count :: "string \<Rightarrow> Transaction \<Rightarrow> int list \<times> Transaction" where
  "select_resend_count p1 tr =
     (map tokens_resend_count (filter (\<lambda>r. tokens_token r = p1) (password_change_tokens_table tr)), tr)"

definition getResendCount :: "string \<Rightarrow> (Users \<times> Transaction, int) io" where
  "getResendCount token =
     io_bind (in_tr (query ''SELECT resend_count FROM password_change_tokens WHERE token = $1''
       (select_resend_count token))) (\<lambda>result.
     if length result = 0 then throw NoSuchEntryError else rows0 result)"

section \<open>The class Hosts\<close>

record Host =
  Host_idx :: int
  Host_name :: string
  Host_host :: string
  hostGroupIdx :: "int option"

record HostGroup =
  HostGroup_idx :: int
  HostGroup_name :: string
  requiredPermissionIdx :: "int option"

definition rowToHostGroup :: "host_groups_row \<Rightarrow> HostGroup" where
  "rowToHostGroup row =
     \<lparr>HostGroup_idx = host_groups_idx row, HostGroup_name = host_groups_name row,
      requiredPermissionIdx = required_permission row\<rparr>"

text \<open>\<open>SELECT idx, name, required_permission FROM host_groups WHERE idx = $1\<close>\<close>

definition select_host_group :: "int \<Rightarrow> Transaction \<Rightarrow> host_groups_row list \<times> Transaction" where
  "select_host_group p1 tr = (filter (\<lambda>r. host_groups_idx r = p1) (host_groups_table tr), tr)"

definition getHostGroupByIdx :: "int \<Rightarrow> (Transaction, HostGroup) io" where
  "getHostGroupByIdx hostGroupIdx' =
     io_bind (query ''SELECT idx, name, required_permission FROM host_groups WHERE idx = $1''
       (select_host_group hostGroupIdx')) (\<lambda>result.
     if length result = 0 then throw NoSuchEntryError
     else io_bind (rows0 result) (\<lambda>row. return (rowToHostGroup row)))"

definition authorizeUserByHost :: "env \<Rightarrow> int \<Rightarrow> Host \<Rightarrow> (Transaction, unit) io" where
  "authorizeUserByHost env userIdx host =
     (case hostGroupIdx host of
        None \<Rightarrow> return ()
      | Some g \<Rightarrow>
          io_bind (getHostGroupByIdx g) (\<lambda>hostGroup.
          case requiredPermissionIdx hostGroup of
            None \<Rightarrow> return ()
          | Some p \<Rightarrow>
              (\<lambda>tr. let havePermission = checkUserHavePermission env tr userIdx p
                     in if \<not> havePermission then throw AuthorizationError tr else return () tr)))"

section \<open>The rules of the specification\<close>

text \<open>
  The allocation rule in the specification's words: a candidate is an integer at or above
  the floor that is one greater than some existing UID and is not itself an existing UID.
\<close>

definition uid_candidate :: "int \<Rightarrow> int set \<Rightarrow> int \<Rightarrow> bool" where
  "uid_candidate floor U v \<longleftrightarrow> floor \<le> v \<and> v - 1 \<in> U \<and> v \<notin> U"

text \<open>
  The token rows of a user. \<open>ON CONFLICT (user_idx)\<close> names a unique index, under which
  a user has at most one row.
\<close>

definition user_tokens :: "int \<Rightarrow> Transaction \<Rightarrow> password_change_tokens_row list" where
  "user_tokens userIdx tr = filter (\<lambda>p. tokens_user_idx p = userIdx) (password_change_tokens_table tr)"


text \<open>An account can be projected when neither its username nor its shell is null.\<close>

definition projectable :: "User \<Rightarrow> bool" where
  "projectable user \<longleftrightarrow> User_username user \<noteq> None \<and> User_shell user \<noteq> None"

text \<open>The rows a lookup of \<open>(local, domain)\<close> matches: the local part up to case, the domain exactly.\<close>

definition email_matches :: "env \<Rightarrow> string \<Rightarrow> string \<Rightarrow> email_addresses_row \<Rightarrow> bool" where
  "email_matches env emailLocal emailDomain r \<longleftrightarrow>
     sql_LOWER env (address_local r) = sql_LOWER env emailLocal \<and> address_domain r = emailDomain"

text \<open>A stored address is alone when no other row holds the same address up to case.\<close>

definition alone_up_to_case :: "env \<Rightarrow> email_addresses_row list \<Rightarrow> email_addresses_row \<Rightarrow> bool" where
  "alone_up_to_case env rows r \<longleftrightarrow>
     list_all (\<lambda>r'. sql_LOWER env (address_local r') = sql_LOWER env (address_local r) \<and>
                    sql_LOWER env (address_domain r') = sql_LOWER env (address_domain r) \<longrightarrow> r' = r) rows"

section \<open>Example states\<close>

definition ascii_lower :: "string \<Rightarrow> string" where
  "ascii_lower s =
     map (\<lambda>c. case map_of (zip ''ABCDEFGHIJKLMNOPQRSTUVWXYZ'' ''abcdefghijklmnopqrstuvwxyz'') c of
                 None \<Rightarrow> c | Some d \<Rightarrow> d) s"

definition example_argon2_hash :: "jsstring \<Rightarrow> string" where
  "example_argon2_hash pw = ''$argon2i$'' @ replicate (length pw) CHR ''x''"

definition example_phc_deserialize :: "string \<Rightarrow> error + phc" where
  "example_phc_deserialize d =
     (if d = ''$mssql-sha1$'' then Inr \<lparr>phc_id = ''mssql-sha1'', phc_salt = Some [7], phc_hash = Some [7, 0, 0x62, 0, 0x61]\<rparr>
      else if d = ''$mssql-sha512$'' then Inr \<lparr>phc_id = ''mssql-sha512'', phc_salt = Some [9], phc_hash = Some [1, 2, 3]\<rparr>
      else if take 9 d = ''$argon2i$'' then Inr \<lparr>phc_id = ''argon2i'', phc_salt = None, phc_hash = None\<rparr>
      else Inl (Error ''invalid digest''))"

definition example_env :: env where
  "example_env =
     \<lparr>ldap_usersOU = ''users'', ldap_baseDN = ''dc=example,dc=com'', posix_minUid = 10,
      posix_homeDirectoryPrefix = ''/home'', posix_userGroupGid = 100,
      posixAccountObjectClass = [''posixAccount''],
      checkUserHavePermission = (\<lambda>tr userIdx permissionIdx. userIdx = 1 \<and> permissionIdx = 5),
      ensureHasAccessExclusiveLock = (\<lambda>tr table. if table = ''users'' then None else Some (Error ''lock not held'')),
      argon2_hash = example_argon2_hash,
      argon2_verify = (\<lambda>d pw. d = example_argon2_hash pw),
      phc_deserialize = example_phc_deserialize,
      hash_primitive = (\<lambda>alg bs. rev bs),
      randomBytes = (\<lambda>n. Inr (replicate n 0xAB)),
      moment = 5000, sql_LOWER = ascii_lower, default_activated = True,
      default_last_login_at = None, default_resend_count = 0\<rparr>"

definition example_user :: "int \<Rightarrow> string option \<Rightarrow> string \<Rightarrow> int \<Rightarrow> string option \<Rightarrow> bool \<Rightarrow> users_row" where
  "example_user i un d u sh act =
     \<lparr>users_idx = i, users_username = un, users_password_digest = d, users_name = ''N'',
      users_uid = u, users_shell = sh, users_preferred_language = en, users_activated = act,
      users_last_login_at = None\<rparr>"

definition example_tr :: Transaction where
  "example_tr =
     \<lparr>issued = [], now = 1000,
      users_table =
        [example_user 1 (Some ''a'') ''$argon2i$xx'' 10 (Some ''/bin/sh'') True,
         example_user 2 (Some ''b'') ''$mssql-sha1$'' 11 (Some ''/bin/sh'') True,
         example_user 3 (Some ''c'') ''$argon2i$xx'' 13 None False],
      users_idx_seq = 4,
      email_addresses_table =
        [\<lparr>owner_idx = Some 2, address_local = ''alice'', address_domain = ''snu.ac.kr''\<rparr>,
         \<lparr>owner_idx = Some 1, address_local = ''Bob'', address_domain = ''snu.ac.kr''\<rparr>,
         \<lparr>owner_idx = None, address_local = ''bob'', address_domain = ''example.com''\<rparr>],
      password_change_tokens_table =
        [\<lparr>tokens_user_idx = 1, tokens_token = ''t1'', tokens_expires = 2000, tokens_resend_count = 3\<rparr>,
         \<lparr>tokens_user_idx = 2, tokens_token = ''t2'', tokens_expires = 500, tokens_resend_count = 4\<rparr>],
      host_groups_table =
        [\<lparr>host_groups_idx = 1, host_groups_name = ''open'', required_permission = None\<rparr>,
         \<lparr>host_groups_idx = 2, host_groups_name = ''restricted'', required_permission = Some 5\<rparr>]\<rparr>"

definition example_this :: Users where
  "example_this = (Users_constructor example_env)\<lparr>posixAccountsCache := Some []\<rparr>"

definition example_host :: "int option \<Rightarrow> Host" where
  "example_host g = \<lparr>Host_idx = 1, Host_name = ''h'', Host_host = ''10.0.0.1'', hostGroupIdx = g\<rparr>"

definition example_users :: "User list" where
  "example_users =
     [\<lparr>User_idx = 1, User_username = Some ''a'', User_name = ''A'', User_uid = 10,
       User_shell = Some ''/bin/sh'', User_preferredLanguage = None\<rparr>,
      \<lparr>User_idx = 2, User_username = None, User_name = ''B'', User_uid = 11,
       User_shell = Some ''/bin/sh'', User_preferredLanguage = None\<rparr>,
      \<lparr>User_idx = 3, User_username = Some ''c'', User_name = ''C'', User_uid = 13,
       User_shell = None, User_preferredLanguage = None\<rparr>]"

definition example_env_unlocked :: env where
  "example_env_unlocked =
     example_env\<lparr>ensureHasAccessExclusiveLock := (\<lambda>tr table. Some (Error ''lock not held''))\<rparr>"

definition example_tr_domain_variants :: Transaction where
  "example_tr_domain_variants =
     example_tr\<lparr>email_addresses_table :=
       [\<lparr>owner_idx = Some 1, address_local = ''Bob'', address_domain = ''snu.ac.kr''\<rparr>,
        \<lparr>owner_idx = Some 2, address_local = ''Bob'', address_domain = ''SNU.ac.kr''\<rparr>]\<rparr>"

definition example_tr_local_variants :: Transaction where
  "example_tr_local_variants =
     example_tr\<lparr>email_addresses_table :=
       [\<lparr>owner_idx = Some 7, address_local = ''bob'', address_domain = ''snu.ac.kr''\<rparr>,
        \<lparr>owner_idx = Some 1, address_local = ''Bob'', address_domain = ''snu.ac.kr''\<rparr>]\<rparr>"


section \<open>Helper lemmas\<close>

lemma fst_in_tr_query:
  "in_tr (query sql run) (this, tr) =
     (Inr (fst (run tr)), (this, (snd (run tr))\<lparr>issued := issued (snd (run tr)) @ [sql]\<rparr>))"
  by (simp add: in_tr_def query_def split: prod.splits)

lemma set_right_outer_join:
  "(a, b) \<in> set (right_outer_join on as bs) \<longleftrightarrow>
     b \<in> set bs \<and> (case a of None \<Rightarrow> \<forall>a' \<in> set as. \<not> on a' b | Some a' \<Rightarrow> a' \<in> set as \<and> on a' b)"
proof (induction bs)
  case Nil
  then show ?case by (simp add: right_outer_join_def)
next
  case (Cons x bs)
  have step: "right_outer_join on as (x # bs) =
     (case filter (\<lambda>a. on a x) as of [] \<Rightarrow> [(None, x)] | ms \<Rightarrow> map (\<lambda>a. (Some a, x)) ms)
       @ right_outer_join on as bs"
    by (simp add: right_outer_join_def)
  show ?case
  proof (cases "filter (\<lambda>a. on a x) as")
    case Nil
    then have "\<forall>a' \<in> set as. \<not> on a' x" by (simp add: filter_empty_conv)
    with Nil Cons.IH show ?thesis unfolding step by (cases a) auto
  next
    case (Cons m ms)
    then have "set (filter (\<lambda>a. on a x) as) = set (m # ms)" by simp
    then have mem: "\<And>a'. a' \<in> set (m # ms) \<longleftrightarrow> a' \<in> set as \<and> on a' x" by auto
    have ex: "\<exists>a' \<in> set as. on a' x" using mem[of m] by auto
    show ?thesis unfolding step Cons using Cons.IH mem ex by (cases a) auto
  qed
qed

lemma set_gap_rows:
  "(a, b) \<in> set (gap_rows p1 us) \<longleftrightarrow>
     a = None \<and> b \<in> set us \<and> uid_candidate p1 (users_uid ` set us) (users_uid b + 1)"
proof (cases a)
  case None
  have "(\<forall>a' \<in> set us. users_uid a' \<noteq> users_uid b + 1) \<longleftrightarrow> users_uid b + 1 \<notin> users_uid ` set us"
    by (auto simp: image_iff)
  moreover have "b \<in> set us \<Longrightarrow> users_uid b + 1 - 1 \<in> users_uid ` set us"
    by simp
  ultimately show ?thesis using None
    unfolding gap_rows_def uid_candidate_def by (auto simp: set_right_outer_join)
next
  case (Some r)
  then show ?thesis unfolding gap_rows_def by simp
qed

lemma hd_sort_key_least:
  assumes "xs \<noteq> []"
  shows "hd (sort_key f xs) \<in> set xs \<and> (\<forall>y \<in> set xs. f (hd (sort_key f xs)) \<le> f y)"
proof -
  from assms have ne: "sort_key f xs \<noteq> []" by (metis length_0_conv length_sort)
  then obtain z zs where zs: "sort_key f xs = z # zs" by (cases "sort_key f xs") auto
  have "sorted (map f (sort_key f xs))" by simp
  with zs have "\<forall>y \<in> set zs. f z \<le> f y" by simp
  moreover have "set (z # zs) = set xs" using zs by (metis set_sort)
  ultimately show ?thesis using zs by auto
qed

lemma select_new_uid_empty:
  "gap_rows p1 (users_table tr) = [] \<Longrightarrow> fst (select_new_uid p1 tr) = []"
  by (simp add: select_new_uid_def gap_rows_def)

lemma select_new_uid_nonempty:
  assumes "gap_rows p1 (users_table tr) \<noteq> []"
  shows "\<exists>b. fst (select_new_uid p1 tr) = [users_uid b + 1] \<and>
     (None, b) \<in> set (gap_rows p1 (users_table tr)) \<and>
     (\<forall>b'. (None, b') \<in> set (gap_rows p1 (users_table tr)) \<longrightarrow> users_uid b \<le> users_uid b')"
proof -
  let ?k = "\<lambda>(a, b). users_uid b" and ?g = "gap_rows p1 (users_table tr)"
  from hd_sort_key_least[OF assms, of ?k]
  have h: "hd (sort_key ?k ?g) \<in> set ?g" "\<forall>y \<in> set ?g. ?k (hd (sort_key ?k ?g)) \<le> ?k y" by auto
  obtain a b where ab: "hd (sort_key ?k ?g) = (a, b)" by (cases "hd (sort_key ?k ?g)")
  with h(1) have a: "a = None" by (simp add: set_gap_rows)
  from assms have ne: "sort_key ?k ?g \<noteq> []" by (metis length_0_conv length_sort)
  then have "take 1 (sort_key ?k ?g) = [(a, b)]" using ab by (cases "sort_key ?k ?g") auto
  then have "fst (select_new_uid p1 tr) = [users_uid b + 1]"
    by (simp add: select_new_uid_def gap_rows_def)
  moreover have "(None, b) \<in> set ?g" using h(1) ab a by simp
  moreover have "\<forall>b'. (None, b') \<in> set ?g \<longrightarrow> users_uid b \<le> users_uid b'"
    using h(2) ab by auto
  ultimately show ?thesis by blast
qed

lemma generateUid_locked:
  "ensureHasAccessExclusiveLock env tr ''users'' = None \<Longrightarrow>
   fst (generateUid env (this, tr)) =
     Inr (case fst (select_new_uid (posix_minUid env) tr) of [] \<Rightarrow> posix_minUid env | r # _ \<Rightarrow> r)"
  by (simp add: generateUid_def io_bind_def in_tr_def assertion_def throw_def query_def
      return_def Let_def split: prod.splits)

lemma select_new_uid_result:
  "\<exists>r. (case fst (select_new_uid m tr) of [] \<Rightarrow> m | r # _ \<Rightarrow> r) = r \<and>
     (if \<exists>v. uid_candidate m (users_uid ` set (users_table tr)) v
      then uid_candidate m (users_uid ` set (users_table tr)) r \<and>
           (\<forall>v. uid_candidate m (users_uid ` set (users_table tr)) v \<longrightarrow> r \<le> v)
      else r = m)"
proof (cases "gap_rows m (users_table tr) = []")
  case True
  have "\<not> (\<exists>v. uid_candidate m (users_uid ` set (users_table tr)) v)"
  proof
    assume "\<exists>v. uid_candidate m (users_uid ` set (users_table tr)) v"
    then obtain v where v: "uid_candidate m (users_uid ` set (users_table tr)) v" ..
    then obtain b where b: "b \<in> set (users_table tr)" "users_uid b = v - 1"
      unfolding uid_candidate_def by auto
    then have "users_uid b + 1 = v" by simp
    with v b have "(None, b) \<in> set (gap_rows m (users_table tr))" by (simp add: set_gap_rows)
    with True show False by simp
  qed
  with select_new_uid_empty[OF True] show ?thesis by simp
next
  case False
  from select_new_uid_nonempty[OF False] obtain b where
    b: "fst (select_new_uid m tr) = [users_uid b + 1]"
       "(None, b) \<in> set (gap_rows m (users_table tr))"
       "\<forall>b'. (None, b') \<in> set (gap_rows m (users_table tr)) \<longrightarrow> users_uid b \<le> users_uid b'"
    by blast
  let ?U = "users_uid ` set (users_table tr)"
  have c: "uid_candidate m ?U (users_uid b + 1)" using b(2) by (simp add: set_gap_rows)
  have least: "users_uid b + 1 \<le> v" if v: "uid_candidate m ?U v" for v
  proof -
    from v obtain b' where b': "b' \<in> set (users_table tr)" "users_uid b' = v - 1"
      unfolding uid_candidate_def by auto
    then have "users_uid b' + 1 = v" by simp
    with v b' have "(None, b') \<in> set (gap_rows m (users_table tr))" by (simp add: set_gap_rows)
    with b(3) have "users_uid b \<le> users_uid b'" by blast
    with b'(2) show ?thesis by simp
  qed
  from c have "\<exists>v. uid_candidate m ?U v" by blast
  with b(1) c least show ?thesis by simp
qed

lemma candidate_exists:
  assumes "u \<in> users_uid ` set us" "m \<le> u"
  shows "\<exists>v. uid_candidate m (users_uid ` set us) v"
proof -
  let ?U = "users_uid ` set us"
  have fin: "finite ?U" by simp
  have ne: "?U \<noteq> {}" using assms(1) by auto
  have "Max ?U \<in> ?U" using fin ne by (rule Max_in)
  moreover have "u \<le> Max ?U" using fin assms(1) by (rule Max_ge)
  moreover have "Max ?U + 1 \<notin> ?U"
  proof
    assume "Max ?U + 1 \<in> ?U"
    with fin have "Max ?U + 1 \<le> Max ?U" by (rule Max_ge)
    then show False by simp
  qed
  ultimately have "uid_candidate m ?U (Max ?U + 1)"
    using assms(2) unfolding uid_candidate_def by simp
  then show ?thesis ..
qed

lemma generatePasswordChangeToken_run:
  assumes "randomBytes env 32 = Inr buf"
  shows "generatePasswordChangeToken env userIdx (this, tr) =
    (Inr (toString_hex buf), this,
     snd (upsert_password_change_token env userIdx (toString_hex buf) (add_1_day (moment env))
            (snd (reset_resend_count userIdx tr)
               \<lparr>issued := issued tr @
                  [''UPDATE password_change_tokens SET resend_count = 0 WHERE user_idx = $1 AND expires <= now()'']\<rparr>))
       \<lparr>issued := issued tr @
          [''UPDATE password_change_tokens SET resend_count = 0 WHERE user_idx = $1 AND expires <= now()'',
           ''INSERT INTO password_change_tokens AS p(user_idx, token, expires) VALUES ($1, $2, $3) '' @
           ''ON CONFLICT (user_idx) DO UPDATE SET token = $2, resend_count = p.resend_count + 1, expires = $3'']\<rparr>)"
  using assms
  by (simp add: generatePasswordChangeToken_def resetResendCountIfExpired_def asyncRandomBytes_def
      io_bind_def fst_in_tr_query return_def Let_def reset_resend_count_def
      upsert_password_change_token_def)

lemma filter_map_same_key:
  assumes "\<And>x. P (f x) = P x"
  shows "filter P (map f xs) = map f (filter P xs)"
  using assms by (induction xs) auto

lemma user_tokens_after:
  assumes rb: "randomBytes env 32 = Inr buf"
    and ex: "user_tokens userIdx tr \<noteq> []"
  shows "user_tokens userIdx (snd (snd (generatePasswordChangeToken env userIdx (this, tr)))) =
    map (\<lambda>p. p\<lparr>tokens_token := toString_hex buf,
              tokens_resend_count := (if tokens_expires p \<le> now tr then 0 else tokens_resend_count p) + 1,
              tokens_expires := add_1_day (moment env)\<rparr>)
      (user_tokens userIdx tr)"
proof -
  let ?T = "password_change_tokens_table tr"
  let ?reset = "\<lambda>r. if tokens_user_idx r = userIdx \<and> tokens_expires r \<le> now tr
                      then r\<lparr>tokens_resend_count := 0\<rparr> else r"
  let ?up = "\<lambda>p. if tokens_user_idx p = userIdx
                         then p\<lparr>tokens_token := toString_hex buf, tokens_resend_count := tokens_resend_count p + 1,
                                tokens_expires := add_1_day (moment env)\<rparr>
                         else p"
  from ex have "\<exists>p \<in> set ?T. tokens_user_idx p = userIdx"
    unfolding user_tokens_def by (simp add: filter_empty_conv)
  then obtain p where p: "p \<in> set ?T" "tokens_user_idx p = userIdx" by blast
  then have "?reset p \<in> set (map ?reset ?T)" "tokens_user_idx (?reset p) = userIdx" by auto
  then have conflict: "list_ex (\<lambda>p. tokens_user_idx p = userIdx) (map ?reset ?T)"
    unfolding list_ex_iff by blast
  have tbl: "password_change_tokens_table (snd (snd (generatePasswordChangeToken env userIdx (this, tr)))) =
      map ?up (map ?reset ?T)"
    unfolding generatePasswordChangeToken_run[OF rb]
    using conflict by (simp add: upsert_password_change_token_def reset_resend_count_def)
  have "filter (\<lambda>p. tokens_user_idx p = userIdx) (map (?up \<circ> ?reset) ?T) =
        map (?up \<circ> ?reset) (filter (\<lambda>p. tokens_user_idx p = userIdx) ?T)"
    by (rule filter_map_same_key) simp
  also have "\<dots> = map (\<lambda>p. p\<lparr>tokens_token := toString_hex buf,
              tokens_resend_count := (if tokens_expires p \<le> now tr then 0 else tokens_resend_count p) + 1,
              tokens_expires := add_1_day (moment env)\<rparr>) (filter (\<lambda>p. tokens_user_idx p = userIdx) ?T)"
    by (rule map_cong) auto
  finally show ?thesis unfolding user_tokens_def tbl by simp
qed














section \<open>UID allocation\<close>

text \<open>
  C1. On a transaction that passes the lock assertion, \<open>generateUid\<close> returns a UID. When some
  existing UID is at or above the floor, the UID returned is the smallest integer at or
  above the floor that is one greater than an existing UID and is not itself an existing
  UID; when no existing UID is at or above the floor, it is the floor. With the UIDs
  10, 11 and 13 and the floor 10 the result is 12.
\<close>

theorem generateUid_smallest_gap:
  assumes "ensureHasAccessExclusiveLock env tr ''users'' = None"
  shows "\<exists>r. fst (generateUid env (this, tr)) = Inr r \<and>
    ((\<exists>u \<in> users_uid ` set (users_table tr). posix_minUid env \<le> u) \<longrightarrow>
       uid_candidate (posix_minUid env) (users_uid ` set (users_table tr)) r \<and>
       (\<forall>v. uid_candidate (posix_minUid env) (users_uid ` set (users_table tr)) v \<longrightarrow> r \<le> v)) \<and>
    ((\<forall>u \<in> users_uid ` set (users_table tr). u < posix_minUid env) \<longrightarrow> r = posix_minUid env)"
proof -
  let ?m = "posix_minUid env" and ?U = "users_uid ` set (users_table tr)"
  from select_new_uid_result[of ?m tr] obtain r where
    r: "(case fst (select_new_uid ?m tr) of [] \<Rightarrow> ?m | r # _ \<Rightarrow> r) = r"
    and rule: "if \<exists>v. uid_candidate ?m ?U v
      then uid_candidate ?m ?U r \<and> (\<forall>v. uid_candidate ?m ?U v \<longrightarrow> r \<le> v) else r = ?m"
    by blast
  have res: "fst (generateUid env (this, tr)) = Inr r"
    using generateUid_locked[OF assms, of this] r by simp
  have above: "uid_candidate ?m ?U r \<and> (\<forall>v. uid_candidate ?m ?U v \<longrightarrow> r \<le> v)"
    if "\<exists>u \<in> ?U. ?m \<le> u"
  proof -
    from that obtain u where "u \<in> ?U" "?m \<le> u" by blast
    then have "\<exists>v. uid_candidate ?m ?U v" by (rule candidate_exists)
    with rule show ?thesis by simp
  qed
  have below: "r = ?m" if all: "\<forall>u \<in> ?U. u < ?m"
  proof (cases "\<exists>v. uid_candidate ?m ?U v")
    case True
    with rule have "uid_candidate ?m ?U r" by simp
    then have "?m \<le> r" "r - 1 \<in> ?U" unfolding uid_candidate_def by auto
    with all have "r - 1 < ?m" by blast
    with \<open>?m \<le> r\<close> show ?thesis by simp
  next
    case False
    with rule show ?thesis by simp
  qed
  from res above below show ?thesis by blast
qed

theorem generateUid_smallest_gap_witness:
  "ensureHasAccessExclusiveLock example_env example_tr ''users'' = None \<and>
   users_uid ` set (users_table example_tr) = {10, 11, 13} \<and>
   posix_minUid example_env = 10 \<and>
   fst (generateUid example_env (example_this, example_tr)) = Inr 12 \<and>
   fst (generateUid (example_env\<lparr>posix_minUid := 20\<rparr>) (example_this, example_tr)) = Inr 20"
proof -
  have lock: "ensureHasAccessExclusiveLock example_env example_tr ''users'' = None"
    by (simp add: example_env_def)
  have lock': "ensureHasAccessExclusiveLock (example_env\<lparr>posix_minUid := 20\<rparr>) example_tr ''users'' = None"
    by (simp add: example_env_def)
  have U: "users_uid ` set (users_table example_tr) = {10, 11, 13}"
    by (simp add: example_tr_def example_user_def)
  have m: "posix_minUid example_env = 10" by (simp add: example_env_def)
  have m': "posix_minUid (example_env\<lparr>posix_minUid := 20\<rparr>) = 20" by simp
  from generateUid_smallest_gap[OF lock, of example_this] obtain r where
    r: "fst (generateUid example_env (example_this, example_tr)) = Inr r"
    and c: "uid_candidate 10 {10, 11, 13} r"
    and least: "\<forall>v. uid_candidate 10 {10, 11, 13} v \<longrightarrow> r \<le> v"
    unfolding U m by auto
  have "uid_candidate 10 {10, 11, 13} 12" by (simp add: uid_candidate_def)
  with least have "r \<le> 12" by blast
  moreover from c have "r = 12 \<or> r = 14" unfolding uid_candidate_def by auto
  ultimately have "r = 12" by auto
  with r have first: "fst (generateUid example_env (example_this, example_tr)) = Inr 12" by simp
  from generateUid_smallest_gap[OF lock', of example_this] obtain r' where
    r': "fst (generateUid (example_env\<lparr>posix_minUid := 20\<rparr>) (example_this, example_tr)) = Inr r'"
    and floor: "(\<forall>u \<in> {10, 11, 13}. u < (20::int)) \<longrightarrow> r' = 20"
    unfolding U m' by auto
  from floor have "r' = 20" by simp
  with r' have second:
    "fst (generateUid (example_env\<lparr>posix_minUid := 20\<rparr>) (example_this, example_tr)) = Inr 20"
    by simp
  from lock U m first second show ?thesis by (intro conjI)
qed

section \<open>Password-change tokens\<close>

lemma hex32: "toString_hex (replicate 32 (0xAB::8 word)) = concat (replicate 32 ''ab'')"
proof -
  have d: "[hex_digit (unat (0xAB::8 word) div 16), hex_digit (unat (0xAB::8 word) mod 16)] = ''ab''"
    by (simp add: hex_digit_def)
  show ?thesis unfolding toString_hex_def map_replicate d ..
qed

lemma getResendCount_run:
  "fst (getResendCount token (this, tr)) =
     (case filter (\<lambda>r. tokens_token r = token) (password_change_tokens_table tr) of
        [] \<Rightarrow> Inl NoSuchEntryError | r # _ \<Rightarrow> Inr (tokens_resend_count r))"
  by (simp add: getResendCount_def io_bind_def fst_in_tr_query select_resend_count_def throw_def
      rows0_def return_def split: list.splits)

text \<open>
  C2, as amended. For a user who has a password-change token, and with the random source
  delivering, \<open>generatePasswordChangeToken\<close> returns the new token; a token that has not
  expired (\<open>expires > NOW()\<close>) has its resend count incremented by one and not reset; a
  token that has expired (\<open>expires <= NOW()\<close>) has its count reset to 0 and then
  incremented by the upsert, so that this issuance leaves the count at 1.
\<close>

theorem generatePasswordChangeToken_resend_count:
  assumes "randomBytes env 32 = Inr buf"
    and "user_tokens userIdx tr \<noteq> []"
  shows "fst (generatePasswordChangeToken env userIdx (this, tr)) = Inr (toString_hex buf) \<and>
    map tokens_resend_count
      (user_tokens userIdx (snd (snd (generatePasswordChangeToken env userIdx (this, tr))))) =
    map (\<lambda>p. if tokens_expires p \<le> now tr then 1 else tokens_resend_count p + 1)
      (user_tokens userIdx tr)"
proof -
  have "fst (generatePasswordChangeToken env userIdx (this, tr)) = Inr (toString_hex buf)"
    by (simp add: generatePasswordChangeToken_run[OF assms(1)])
  moreover have "map tokens_resend_count
      (user_tokens userIdx (snd (snd (generatePasswordChangeToken env userIdx (this, tr))))) =
    map (\<lambda>p. if tokens_expires p \<le> now tr then 1 else tokens_resend_count p + 1)
      (user_tokens userIdx tr)"
    unfolding user_tokens_after[OF assms] by (simp add: comp_def)
  ultimately show ?thesis by simp
qed

theorem generatePasswordChangeToken_resend_count_witness:
  "randomBytes example_env 32 = Inr (replicate 32 0xAB) \<and>
   map (\<lambda>p. (tokens_expires p, tokens_resend_count p)) (user_tokens 1 example_tr) = [(2000, 3)] \<and>
   map (\<lambda>p. (tokens_expires p, tokens_resend_count p)) (user_tokens 2 example_tr) = [(500, 4)] \<and>
   now example_tr = 1000 \<and>
   map tokens_resend_count
     (user_tokens 1 (snd (snd (generatePasswordChangeToken example_env 1 (example_this, example_tr))))) = [4] \<and>
   map tokens_resend_count
     (user_tokens 2 (snd (snd (generatePasswordChangeToken example_env 2 (example_this, example_tr))))) = [1]"
proof -
  have rb: "randomBytes example_env 32 = Inr (replicate 32 0xAB)"
    by (simp add: example_env_def)
  have t1: "user_tokens 1 example_tr =
      [\<lparr>tokens_user_idx = 1, tokens_token = ''t1'', tokens_expires = 2000, tokens_resend_count = 3\<rparr>]"
    by (simp add: user_tokens_def example_tr_def)
  have t2: "user_tokens 2 example_tr =
      [\<lparr>tokens_user_idx = 2, tokens_token = ''t2'', tokens_expires = 500, tokens_resend_count = 4\<rparr>]"
    by (simp add: user_tokens_def example_tr_def)
  have n: "now example_tr = 1000" by (simp add: example_tr_def)
  have ne1: "user_tokens 1 example_tr \<noteq> []" and ne2: "user_tokens 2 example_tr \<noteq> []"
    by (simp_all add: t1 t2)
  from generatePasswordChangeToken_resend_count[OF rb ne1, of example_this]
       generatePasswordChangeToken_resend_count[OF rb ne2, of example_this]
  show ?thesis unfolding t1 t2 n using rb by simp
qed

theorem generatePasswordChangeToken_expired_counterexample:
  "map tokens_expires (user_tokens 2 example_tr) = [500] \<and>
   now example_tr = 1000 \<and>
   map tokens_resend_count
     (user_tokens 2 (snd (snd (generatePasswordChangeToken example_env 2 (example_this, example_tr))))) = [1] \<and>
   map tokens_resend_count
     (user_tokens 2 (snd (snd (generatePasswordChangeToken example_env 2 (example_this, example_tr))))) \<noteq> [0] \<and>
   fst (getResendCount (toString_hex (replicate 32 0xAB))
          (snd (generatePasswordChangeToken example_env 2 (example_this, example_tr)))) = Inr 1"
proof -
  have rb: "randomBytes example_env 32 = Inr (replicate 32 0xAB)"
    by (simp add: example_env_def)
  have t2: "user_tokens 2 example_tr =
      [\<lparr>tokens_user_idx = 2, tokens_token = ''t2'', tokens_expires = 500, tokens_resend_count = 4\<rparr>]"
    by (simp add: user_tokens_def example_tr_def)
  have n: "now example_tr = 1000" by (simp add: example_tr_def)
  have ne2: "user_tokens 2 example_tr \<noteq> []" by (simp add: t2)
  have ne: "''t1'' \<noteq> concat (replicate 32 ''ab'')" by (simp add: numeral_eq_Suc)
  have tbl: "password_change_tokens_table
       (snd (snd (generatePasswordChangeToken example_env 2 (example_this, example_tr)))) =
     [\<lparr>tokens_user_idx = 1, tokens_token = ''t1'', tokens_expires = 2000, tokens_resend_count = 3\<rparr>,
      \<lparr>tokens_user_idx = 2, tokens_token = concat (replicate 32 ''ab''),
       tokens_expires = add_1_day (moment example_env), tokens_resend_count = 1\<rparr>]"
    unfolding generatePasswordChangeToken_run[OF rb] hex32
    by (simp add: upsert_password_change_token_def reset_resend_count_def example_tr_def)
  have g: "fst (getResendCount (toString_hex (replicate 32 0xAB))
          (snd (generatePasswordChangeToken example_env 2 (example_this, example_tr)))) = Inr 1"
    unfolding hex32
    using getResendCount_run[of "concat (replicate 32 ''ab'')"
        "fst (snd (generatePasswordChangeToken example_env 2 (example_this, example_tr)))"
        "snd (snd (generatePasswordChangeToken example_env 2 (example_this, example_tr)))"]
    unfolding tbl using ne by simp
  have u: "map tokens_resend_count
     (user_tokens 2 (snd (snd (generatePasswordChangeToken example_env 2 (example_this, example_tr))))) = [1]"
    unfolding user_tokens_after[OF rb ne2] unfolding t2 n by simp
  have e: "map tokens_expires (user_tokens 2 example_tr) = [500]" unfolding t2 by simp
  from e n u g show ?thesis by simp
qed

section \<open>Authentication\<close>







section \<open>Host authorization\<close>

lemma getHostGroupByIdx_run:
  "getHostGroupByIdx g tr =
     (case filter (\<lambda>r. host_groups_idx r = g) (host_groups_table tr) of
        [] \<Rightarrow> Inl NoSuchEntryError
      | row # _ \<Rightarrow> Inr (rowToHostGroup row),
      tr\<lparr>issued := issued tr @ [''SELECT idx, name, required_permission FROM host_groups WHERE idx = $1'']\<rparr>)"
  by (simp add: getHostGroupByIdx_def io_bind_def query_def select_host_group_def throw_def return_def
      rows0_def split: list.splits)

text \<open>
  C5. \<open>authorizeUserByHost\<close> succeeds, without a query, when the host has no host group.
  Otherwise, the host group being loaded (the first row of that idx), it succeeds when the
  group requires no permission; and when the group requires the permission \<open>p\<close>, it fails
  with \<open>AuthorizationError\<close> exactly when \<open>checkUserHavePermission\<close> answers false for
  \<open>(userIdx, p)\<close>, and succeeds exactly when it answers true.
\<close>

theorem authorizeUserByHost_decision:
  "(hostGroupIdx host = None \<longrightarrow> authorizeUserByHost env userIdx host tr = (Inr (), tr)) \<and>
   (\<forall>g row rest.
      hostGroupIdx host = Some g \<and>
      filter (\<lambda>r. host_groups_idx r = g) (host_groups_table tr) = row # rest \<longrightarrow>
        (required_permission row = None \<longrightarrow> fst (authorizeUserByHost env userIdx host tr) = Inr ()) \<and>
        (\<forall>p. required_permission row = Some p \<longrightarrow>
           (fst (authorizeUserByHost env userIdx host tr) = Inl AuthorizationError \<longleftrightarrow>
              \<not> checkUserHavePermission env
                  (tr\<lparr>issued := issued tr @
                     [''SELECT idx, name, required_permission FROM host_groups WHERE idx = $1'']\<rparr>)
                  userIdx p) \<and>
           (fst (authorizeUserByHost env userIdx host tr) = Inr () \<longleftrightarrow>
              checkUserHavePermission env
                  (tr\<lparr>issued := issued tr @
                     [''SELECT idx, name, required_permission FROM host_groups WHERE idx = $1'']\<rparr>)
                  userIdx p)))"
proof (intro conjI allI impI)
  assume "hostGroupIdx host = None"
  then show "authorizeUserByHost env userIdx host tr = (Inr (), tr)"
    by (simp add: authorizeUserByHost_def return_def)
next
  fix g row rest
  assume h: "hostGroupIdx host = Some g \<and>
      filter (\<lambda>r. host_groups_idx r = g) (host_groups_table tr) = row # rest"
  {
    assume "required_permission row = None"
    with h show "fst (authorizeUserByHost env userIdx host tr) = Inr ()"
      by (simp add: authorizeUserByHost_def io_bind_def getHostGroupByIdx_run rowToHostGroup_def return_def)
  }
  fix p
  assume p: "required_permission row = Some p"
  let ?tr1 = "tr\<lparr>issued := issued tr @
                     [''SELECT idx, name, required_permission FROM host_groups WHERE idx = $1'']\<rparr>"
  have run: "fst (authorizeUserByHost env userIdx host tr) =
      (if checkUserHavePermission env ?tr1 userIdx p then Inr () else Inl AuthorizationError)"
    using h p
    by (simp add: authorizeUserByHost_def io_bind_def getHostGroupByIdx_run rowToHostGroup_def return_def
        throw_def Let_def)
  show "fst (authorizeUserByHost env userIdx host tr) = Inl AuthorizationError \<longleftrightarrow>
              \<not> checkUserHavePermission env ?tr1 userIdx p"
    unfolding run by simp
  show "fst (authorizeUserByHost env userIdx host tr) = Inr () \<longleftrightarrow>
              checkUserHavePermission env ?tr1 userIdx p"
    unfolding run by simp
qed

theorem authorizeUserByHost_decision_witness:
  "authorizeUserByHost example_env 2 (example_host None) example_tr = (Inr (), example_tr) \<and>
   fst (authorizeUserByHost example_env 2 (example_host (Some 1)) example_tr) = Inr () \<and>
   fst (authorizeUserByHost example_env 1 (example_host (Some 2)) example_tr) = Inr () \<and>
   fst (authorizeUserByHost example_env 2 (example_host (Some 2)) example_tr) = Inl AuthorizationError"
proof -
  let ?g1 = "\<lparr>host_groups_idx = 1, host_groups_name = ''open'', required_permission = None\<rparr>"
  let ?g2 = "\<lparr>host_groups_idx = 2, host_groups_name = ''restricted'', required_permission = Some 5\<rparr>"
  let ?tr1 = "example_tr\<lparr>issued := issued example_tr @
                     [''SELECT idx, name, required_permission FROM host_groups WHERE idx = $1'']\<rparr>"
  have h0: "hostGroupIdx (example_host None) = None" by (simp add: example_host_def)
  have h1: "hostGroupIdx (example_host (Some 1)) = Some 1 \<and>
      filter (\<lambda>r. host_groups_idx r = 1) (host_groups_table example_tr) = ?g1 # []"
    by (simp add: example_host_def example_tr_def)
  have h2: "hostGroupIdx (example_host (Some 2)) = Some 2 \<and>
      filter (\<lambda>r. host_groups_idx r = 2) (host_groups_table example_tr) = ?g2 # []"
    by (simp add: example_host_def example_tr_def)
  have n1: "required_permission ?g1 = None" and p2: "required_permission ?g2 = Some 5" by simp_all
  have yes: "checkUserHavePermission example_env ?tr1 1 5" and no: "\<not> checkUserHavePermission example_env ?tr1 2 5"
    by (simp_all add: example_env_def)
  have r0: "authorizeUserByHost example_env 2 (example_host None) example_tr = (Inr (), example_tr)"
    by (rule authorizeUserByHost_decision[THEN conjunct1, THEN mp, OF h0])
  have r1: "fst (authorizeUserByHost example_env 2 (example_host (Some 1)) example_tr) = Inr ()"
    by (rule authorizeUserByHost_decision[THEN conjunct2, THEN spec, THEN spec, THEN spec, THEN mp, OF h1,
          THEN conjunct1, THEN mp, OF n1])
  have r2: "fst (authorizeUserByHost example_env 1 (example_host (Some 2)) example_tr) = Inr ()"
    by (rule authorizeUserByHost_decision[THEN conjunct2, THEN spec, THEN spec, THEN spec, THEN mp, OF h2,
          THEN conjunct2, THEN spec, THEN mp, OF p2, THEN conjunct2, THEN iffD2, OF yes])
  have r3: "fst (authorizeUserByHost example_env 2 (example_host (Some 2)) example_tr) = Inl AuthorizationError"
    by (rule authorizeUserByHost_decision[THEN conjunct2, THEN spec, THEN spec, THEN spec, THEN mp, OF h2,
          THEN conjunct2, THEN spec, THEN mp, OF p2, THEN conjunct1, THEN iffD2, OF no])
  from r0 r1 r2 r3 show ?thesis by (intro conjI)
qed

section \<open>The directory projection\<close>

lemma userToPosixAccount_projectable:
  "projectable user \<longleftrightarrow> (\<exists>entry. userToPosixAccount env this user = Inr entry)"
  by (auto simp: projectable_def userToPosixAccount_def split: option.splits)

lemma userToPosixAccount_not_projectable:
  "\<not> projectable user \<longleftrightarrow> userToPosixAccount env this user = Inl (Error ''Cannot convert to posixAccount'')"
  by (auto simp: projectable_def userToPosixAccount_def split: option.splits)

lemma usersToPosixAccounts_loop:
  "\<exists>entries.
     forEach users (\<lambda>user.
       try_catch (io_bind (of_result (userToPosixAccount env this user)) push)
         (\<lambda>e. return ())) acc = (Inr (), entries) \<and>
     map Inr entries = map Inr acc @ map (userToPosixAccount env this) (filter projectable users)"
proof (induction users arbitrary: acc)
  case Nil
  then show ?case by (simp add: return_def)
next
  case (Cons u users)
  show ?case
  proof (cases "projectable u")
    case True
    then obtain entry where e: "userToPosixAccount env this u = Inr entry"
      using userToPosixAccount_projectable by blast
    have step: "try_catch (io_bind (of_result (userToPosixAccount env this u)) push)
         (\<lambda>e. return ()) acc = (Inr (), acc @ [entry])"
      by (simp add: e try_catch_def io_bind_def of_result_def return_def push_def)
    from Cons.IH[of "acc @ [entry]"] True e step show ?thesis
      by (auto simp: io_bind_def)
  next
    case False
    then have e: "userToPosixAccount env this u = Inl (Error ''Cannot convert to posixAccount'')"
      using userToPosixAccount_not_projectable by blast
    have step: "try_catch (io_bind (of_result (userToPosixAccount env this u)) push)
         (\<lambda>e. return ()) acc = (Inr (), acc)"
      by (simp add: e try_catch_def io_bind_def of_result_def return_def throw_def)
    from Cons.IH[of acc] False e step show ?thesis
      by (auto simp: io_bind_def)
  qed
qed

lemma usersToPosixAccounts_run:
  "\<exists>entries. usersToPosixAccounts env this users = Inr entries \<and>
     map Inr entries = map (userToPosixAccount env this) (filter projectable users)"
proof -
  from usersToPosixAccounts_loop[of users env this "[]"] obtain entries where
    "forEach users (\<lambda>user.
       try_catch (io_bind (of_result (userToPosixAccount env this user)) push)
         (\<lambda>e. return ())) [] = (Inr (), entries)"
    "map Inr entries = map (userToPosixAccount env this) (filter projectable users)"
    by auto
  then show ?thesis by (simp add: usersToPosixAccounts_def with_array_def)
qed

lemma forEach_push:
  "forEach rows (\<lambda>row. push (f row)) acc = (Inr (), acc @ map f rows)"
  by (induction rows arbitrary: acc) (simp_all add: return_def io_bind_def push_def)

lemma getAll_run:
  "getAll (this, tr) =
     (Inr (map rowToUser (fst (select_users tr))), this,
      tr\<lparr>issued := issued tr @ [''SELECT idx, username, name, uid, shell FROM users'']\<rparr>)"
  by (simp add: getAll_def io_bind_def fst_in_tr_query return_def forEach_push with_array_def
      of_result_def select_users_def)

text \<open>
  C6. For every list of accounts \<open>usersToPosixAccounts\<close> returns a list and does not fail:
  the error of a conversion is caught. The entries are, in order, the conversions of
  exactly the accounts whose username and shell are both non-null; an account missing
  either is left out, and nothing else is. \<open>getAllAsPosixAccounts\<close> on an empty cache
  succeeds with the entries for the accounts of the table.
\<close>

theorem usersToPosixAccounts_projection:
  "\<exists>entries.
     usersToPosixAccounts env this users = Inr entries \<and>
     map Inr entries = map (userToPosixAccount env this) (filter projectable users) \<and>
     length entries = length (filter projectable users) \<and>
     (projectable user \<longleftrightarrow> (\<exists>entry. userToPosixAccount env this user = Inr entry)) \<and>
     fst (getAllAsPosixAccounts env (this\<lparr>posixAccountsCache := None\<rparr>, tr)) =
       usersToPosixAccounts env (this\<lparr>posixAccountsCache := None\<rparr>)
         (map rowToUser (fst (select_users tr)))"
proof -
  from usersToPosixAccounts_run[of env this users] obtain entries where
    a: "usersToPosixAccounts env this users = Inr entries"
    and b: "map Inr entries = map (userToPosixAccount env this) (filter projectable users)"
    by blast
  from arg_cong[OF b, of length]
  have c: "length entries = length (filter projectable users)" by simp
  have d: "projectable user \<longleftrightarrow> (\<exists>entry. userToPosixAccount env this user = Inr entry)"
    by (rule userToPosixAccount_projectable)
  from usersToPosixAccounts_run[of env "this\<lparr>posixAccountsCache := None\<rparr>"
      "map rowToUser (fst (select_users tr))"] obtain es where
    es: "usersToPosixAccounts env (this\<lparr>posixAccountsCache := None\<rparr>)
           (map rowToUser (fst (select_users tr))) = Inr es"
    by blast
  have e: "fst (getAllAsPosixAccounts env (this\<lparr>posixAccountsCache := None\<rparr>, tr)) =
       usersToPosixAccounts env (this\<lparr>posixAccountsCache := None\<rparr>)
         (map rowToUser (fst (select_users tr)))"
    by (simp add: getAllAsPosixAccounts_def io_bind_def getAll_run es of_result_def
        set_posixAccountsCache_def return_def)
  from a b c d e show ?thesis by blast
qed

theorem usersToPosixAccounts_projection_witness:
  "filter projectable example_users = [example_users ! 0] \<and>
   map_sum id (map dn) (usersToPosixAccounts example_env example_this example_users) =
     Inr [''cn=a,ou=users,dc=example,dc=com'']"
proof -
  let ?a = "\<lparr>User_idx = 1, User_username = Some ''a'', User_name = ''A'', User_uid = 10,
       User_shell = Some ''/bin/sh'', User_preferredLanguage = None\<rparr>"
  let ?e = "\<lparr>dn = ''cn=a,ou=users,dc=example,dc=com'',
         attributes = \<lparr>attr_uid = ''a'', attr_cn = ''a'', attr_gecos = ''A'',
           attr_homeDirectory = ''/home/a'', attr_loginShell = ''/bin/sh'',
           attr_objectClass = [''posixAccount''], attr_uidNumber = 10, attr_gidNumber = 100\<rparr>\<rparr>"
  have f: "filter projectable example_users = [?a]"
    by (simp add: example_users_def projectable_def)
  have e: "userToPosixAccount example_env example_this ?a = Inr ?e"
    by (simp add: userToPosixAccount_def example_env_def example_this_def Users_constructor_def)
  from usersToPosixAccounts_projection[of example_env example_this example_users]
  obtain entries where
    r: "usersToPosixAccounts example_env example_this example_users = Inr entries"
    and m: "map Inr entries = map (userToPosixAccount example_env example_this) (filter projectable example_users)"
    by blast
  from m have "map Inr entries = [(Inr :: SearchEntry \<Rightarrow> error + SearchEntry) ?e]"
    unfolding f by (simp add: e)
  then have "entries = [?e]" by (simp add: map_eq_Cons_conv)
  with r have "map_sum id (map dn) (usersToPosixAccounts example_env example_this example_users) =
     Inr [''cn=a,ou=users,dc=example,dc=com'']"
    by simp
  moreover have "filter projectable example_users = [example_users ! 0]"
    unfolding f by (simp add: example_users_def)
  ultimately show ?thesis by simp
qed

section \<open>Runs of the account methods\<close>

lemma generateUid_run:
  "generateUid env (this, tr) =
     (case ensureHasAccessExclusiveLock env tr ''users'' of
        None \<Rightarrow>
        (Inr (case fst (select_new_uid (posix_minUid env) tr) of [] \<Rightarrow> posix_minUid env | r # _ \<Rightarrow> r), this,
         tr\<lparr>issued := issued tr @
           [''SELECT b.uid + 1 AS uid FROM users AS a RIGHT OUTER JOIN '' @
            ''users AS b ON a.uid = b.uid + 1 WHERE a.uid IS NULL AND b.uid + 1 >= $1 ORDER BY b.uid LIMIT 1'']\<rparr>)
      | Some e \<Rightarrow> (Inl e, this, tr))"
  by (simp add: generateUid_def io_bind_def in_tr_def assertion_def throw_def query_def
      return_def Let_def select_new_uid_def split: prod.splits option.splits)

lemma filter_Cons_idx:
  assumes "filter (\<lambda>r. users_idx r = i) rows = z # zs"
  shows "users_idx z = i"
proof -
  have "z \<in> set (filter (\<lambda>r. users_idx r = i) rows)" unfolding assms by simp
  then show ?thesis by simp
qed

lemma create_run:
  "fst (create env username password name shell preferredLanguage (this, tr)) =
     (case ensureHasAccessExclusiveLock env tr ''users'' of None \<Rightarrow> Inr (users_idx_seq tr) | Some e \<Rightarrow> Inl e)"
  "fst (snd (create env username password name shell preferredLanguage (this, tr))) =
     (case ensureHasAccessExclusiveLock env tr ''users'' of None \<Rightarrow> this\<lparr>posixAccountsCache := None\<rparr> | Some e \<Rightarrow> this)"
  by (simp_all add: create_def Let_def io_bind_def generateUid_run fst_in_tr_query insert_user_def
      set_posixAccountsCache_def rows0_def return_def split: option.splits)

lemma delete_run:
  "fst (delete userIdx (this, tr)) =
     (if filter (\<lambda>r. users_idx r = userIdx) (users_table tr) = [] then Inl NoSuchEntryError else Inr userIdx)"
  "fst (snd (delete userIdx (this, tr))) =
     (if filter (\<lambda>r. users_idx r = userIdx) (users_table tr) = [] then this
      else this\<lparr>posixAccountsCache := None\<rparr>)"
  by (auto simp add: delete_def io_bind_def fst_in_tr_query delete_user_def throw_def
      set_posixAccountsCache_def rows0_def return_def split: list.splits dest: filter_Cons_idx)

lemma changeShell_run:
  "fst (changeShell userIdx shell (this, tr)) =
     (if filter (\<lambda>r. users_idx r = userIdx) (users_table tr) = [] then Inl NoSuchEntryError else Inr userIdx)"
  "fst (snd (changeShell userIdx shell (this, tr))) =
     (if filter (\<lambda>r. users_idx r = userIdx) (users_table tr) = [] then this
      else this\<lparr>posixAccountsCache := None\<rparr>)"
  by (auto simp add: changeShell_def io_bind_def fst_in_tr_query update_shell_def throw_def
      set_posixAccountsCache_def rows0_def return_def split: list.splits dest: filter_Cons_idx)

lemma changePassword_run:
  "fst (changePassword env userIdx newPassword (this, tr)) =
     (if filter (\<lambda>r. users_idx r = userIdx) (users_table tr) = [] then Inl NoSuchEntryError else Inr userIdx)"
  "fst (snd (changePassword env userIdx newPassword (this, tr))) = this"
  by (auto simp add: changePassword_def Let_def io_bind_def fst_in_tr_query update_password_digest_def throw_def
      rows0_def return_def split: list.splits dest: filter_Cons_idx)

lemma map_no_match:
  assumes "filter (\<lambda>r. users_idx r = userIdx) rows = []"
  shows "map (\<lambda>r. if users_idx r = userIdx then f r else r) rows = rows"
  using assms by (induction rows) (auto split: if_splits)

lemma activate_run:
  "activate userIdx (this, tr) =
     (Inr (), this,
      tr\<lparr>users_table := map (\<lambda>r. if users_idx r = userIdx then r\<lparr>users_activated := True\<rparr> else r) (users_table tr),
         issued := issued tr @ [''UPDATE users SET activated = TRUE WHERE idx = $1'']\<rparr>)"
  by (simp add: activate_def io_bind_def fst_in_tr_query update_activated_def return_def)

lemma deactivate_run:
  "deactivate userIdx (this, tr) =
     (Inr (), this,
      tr\<lparr>users_table := map (\<lambda>r. if users_idx r = userIdx then r\<lparr>users_activated := False\<rparr> else r) (users_table tr),
         issued := issued tr @ [''UPDATE users SET activated = FALSE WHERE idx = $1'']\<rparr>)"
  by (simp add: deactivate_def io_bind_def fst_in_tr_query update_activated_def return_def)

lemma updateLastLoginAt_run:
  "updateLastLoginAt userIdx (this, tr) =
     (Inr (), this,
      tr\<lparr>users_table := map (\<lambda>r. if users_idx r = userIdx then r\<lparr>users_last_login_at := Some (now tr)\<rparr> else r) (users_table tr),
         issued := issued tr @ [''UPDATE users SET last_login_at = NOW() WHERE idx = $1'']\<rparr>)"
  by (simp add: updateLastLoginAt_def io_bind_def fst_in_tr_query update_last_login_at_def return_def)

section \<open>Cache invalidation\<close>

text \<open>
  C7. A successful \<open>create\<close>, \<open>delete\<close> or \<open>changeShell\<close> leaves the \<open>Users\<close> object with
  \<open>posixAccountsCache\<close> null and its other field as it was, and a failed one leaves the
  object as it was; \<open>changePassword\<close> leaves the object, and so the cache, as it was,
  whether it succeeds or fails.
\<close>

theorem cache_invalidation:
  "(case create env username password name shell preferredLanguage (this, tr) of
      (Inr r, this', tr') \<Rightarrow> this' = this\<lparr>posixAccountsCache := None\<rparr>
    | (Inl e, this', tr') \<Rightarrow> this' = this) \<and>
   (case delete userIdx (this, tr) of
      (Inr r, this', tr') \<Rightarrow> this' = this\<lparr>posixAccountsCache := None\<rparr>
    | (Inl e, this', tr') \<Rightarrow> this' = this) \<and>
   (case changeShell userIdx shell (this, tr) of
      (Inr r, this', tr') \<Rightarrow> this' = this\<lparr>posixAccountsCache := None\<rparr>
    | (Inl e, this', tr') \<Rightarrow> this' = this) \<and>
   fst (snd (changePassword env userIdx newPassword (this, tr))) = this"
proof -
  have split3: "(case x of (Inr r, this', tr') \<Rightarrow> this' = a | (Inl e, this', tr') \<Rightarrow> this' = b) \<longleftrightarrow>
      fst (snd x) = (case fst x of Inr r \<Rightarrow> a | Inl e \<Rightarrow> b)"
    for x :: "(error + 'r) \<times> Users \<times> Transaction" and a b
    by (cases x) (auto split: sum.splits)
  show ?thesis
    unfolding split3
    by (simp add: create_run delete_run changeShell_run changePassword_run split: option.splits)
qed

theorem cache_invalidation_witness:
  "posixAccountsCache example_this = Some [] \<and>
   fst (create example_env ''d'' [0x61] ''D'' ''/bin/zsh'' ko (example_this, example_tr)) = Inr 4 \<and>
   fst (snd (create example_env ''d'' [0x61] ''D'' ''/bin/zsh'' ko (example_this, example_tr))) =
     example_this\<lparr>posixAccountsCache := None\<rparr> \<and>
   fst (delete 1 (example_this, example_tr)) = Inr 1 \<and>
   fst (snd (delete 1 (example_this, example_tr))) = example_this\<lparr>posixAccountsCache := None\<rparr> \<and>
   fst (changeShell 1 ''/bin/zsh'' (example_this, example_tr)) = Inr 1 \<and>
   fst (snd (changeShell 1 ''/bin/zsh'' (example_this, example_tr))) = example_this\<lparr>posixAccountsCache := None\<rparr> \<and>
   fst (changePassword example_env 1 [0x61] (example_this, example_tr)) = Inr 1 \<and>
   fst (snd (changePassword example_env 1 [0x61] (example_this, example_tr))) = example_this"
proof -
  have resolve: "fst x = Inr r \<Longrightarrow>
      (case x of (Inr r, this', tr') \<Rightarrow> this' = a | (Inl e, this', tr') \<Rightarrow> this' = b) \<Longrightarrow> fst (snd x) = a"
    for x :: "(error + int) \<times> Users \<times> Transaction" and r a b
    by (cases x) (auto split: sum.splits)
  note c = cache_invalidation[where env = example_env and username = "''d''" and password = "[0x61]"
      and name = "''D''" and shell = "''/bin/zsh''" and preferredLanguage = ko and this = example_this
      and tr = example_tr and userIdx = 1 and newPassword = "[0x61]"]
  have f1: "filter (\<lambda>r. users_idx r = 1) (users_table example_tr) \<noteq> []"
    by (simp add: example_tr_def example_user_def)
  have l: "ensureHasAccessExclusiveLock example_env example_tr ''users'' = None"
    by (simp add: example_env_def)
  have q: "users_idx_seq example_tr = 4"
    by (simp add: example_tr_def)
  have r1: "fst (create example_env ''d'' [0x61] ''D'' ''/bin/zsh'' ko (example_this, example_tr)) = Inr 4"
    by (simp add: create_run l q)
  have r2: "fst (delete 1 (example_this, example_tr)) = Inr 1" by (simp add: delete_run f1)
  have r3: "fst (changeShell 1 ''/bin/zsh'' (example_this, example_tr)) = Inr 1" by (simp add: changeShell_run f1)
  have r4: "fst (changePassword example_env 1 [0x61] (example_this, example_tr)) = Inr 1"
    by (simp add: changePassword_run f1)
  have c0: "posixAccountsCache example_this = Some []" by (simp add: example_this_def)
  from c0 r1 resolve[OF r1 c[THEN conjunct1]] r2 resolve[OF r2 c[THEN conjunct2, THEN conjunct1]]
    r3 resolve[OF r3 c[THEN conjunct2, THEN conjunct2, THEN conjunct1]] r4
    c[THEN conjunct2, THEN conjunct2, THEN conjunct2]
  show ?thesis by (intro conjI)
qed

section \<open>The lock of generateUid\<close>

text \<open>
  C8. \<open>generateUid\<close> calls the assertion \<open>tr.ensureHasAccessExclusiveLock('users')\<close> before
  anything else. On a transaction for which the assertion throws, \<open>generateUid\<close> throws
  the same error and leaves the transaction as it was: no statement is issued, so the gap
  scan is not reached. On a transaction for which it returns, \<open>generateUid\<close> returns a
  UID, and the gap scan is the one statement it issues.
\<close>

theorem generateUid_lock_first:
  "(\<forall>e. ensureHasAccessExclusiveLock env tr ''users'' = Some e \<longrightarrow>
      generateUid env (this, tr) = (Inl e, this, tr) \<and>
      issued (snd (snd (generateUid env (this, tr)))) = issued tr) \<and>
   (ensureHasAccessExclusiveLock env tr ''users'' = None \<longrightarrow>
      (\<exists>uid. fst (generateUid env (this, tr)) = Inr uid) \<and>
      issued (snd (snd (generateUid env (this, tr)))) = issued tr @
        [''SELECT b.uid + 1 AS uid FROM users AS a RIGHT OUTER JOIN '' @
         ''users AS b ON a.uid = b.uid + 1 WHERE a.uid IS NULL AND b.uid + 1 >= $1 ORDER BY b.uid LIMIT 1''])"
  by (simp add: generateUid_run)

theorem generateUid_lock_first_witness:
  "generateUid example_env_unlocked (example_this, example_tr) =
     (Inl (Error ''lock not held''), example_this, example_tr) \<and>
   issued (snd (snd (generateUid example_env_unlocked (example_this, example_tr)))) = [] \<and>
   issued (snd (snd (generateUid example_env (example_this, example_tr)))) =
        [''SELECT b.uid + 1 AS uid FROM users AS a RIGHT OUTER JOIN '' @
         ''users AS b ON a.uid = b.uid + 1 WHERE a.uid IS NULL AND b.uid + 1 >= $1 ORDER BY b.uid LIMIT 1'']"
proof -
  have nl: "ensureHasAccessExclusiveLock example_env_unlocked example_tr ''users'' = Some (Error ''lock not held'')"
    by (simp add: example_env_unlocked_def)
  have l: "ensureHasAccessExclusiveLock example_env example_tr ''users'' = None"
    by (simp add: example_env_def)
  have i1: "issued example_tr = []"
    by (simp add: example_tr_def)
  note a = generateUid_lock_first[of example_env_unlocked example_tr example_this,
      THEN conjunct1, THEN spec, THEN mp, OF nl]
  note b = generateUid_lock_first[of example_env example_tr example_this, THEN conjunct2, THEN mp, OF l,
      THEN conjunct2]
  from a[THEN conjunct1] a[THEN conjunct2, unfolded i1] b[unfolded i1 append_Nil]
  show ?thesis by (intro conjI)
qed

section \<open>Updates that do not look at the affected rows\<close>

text \<open>
  C9. \<open>activate\<close>, \<open>deactivate\<close> and \<open>updateLastLoginAt\<close> return without error for every
  \<open>userIdx\<close>. When no account has that idx they change nothing but the record of the
  statements issued, while \<open>delete\<close>, \<open>changePassword\<close> and \<open>changeShell\<close> fail with
  \<open>NoSuchEntryError\<close>.
\<close>

theorem update_without_row_check:
  "fst (activate userIdx (this, tr)) = Inr () \<and>
   fst (deactivate userIdx (this, tr)) = Inr () \<and>
   fst (updateLastLoginAt userIdx (this, tr)) = Inr () \<and>
   (filter (\<lambda>r. users_idx r = userIdx) (users_table tr) = [] \<longrightarrow>
      activate userIdx (this, tr) =
        (Inr (), this, tr\<lparr>issued := issued tr @ [''UPDATE users SET activated = TRUE WHERE idx = $1'']\<rparr>) \<and>
      deactivate userIdx (this, tr) =
        (Inr (), this, tr\<lparr>issued := issued tr @ [''UPDATE users SET activated = FALSE WHERE idx = $1'']\<rparr>) \<and>
      updateLastLoginAt userIdx (this, tr) =
        (Inr (), this, tr\<lparr>issued := issued tr @ [''UPDATE users SET last_login_at = NOW() WHERE idx = $1'']\<rparr>) \<and>
      fst (delete userIdx (this, tr)) = Inl NoSuchEntryError \<and>
      fst (changePassword env userIdx newPassword (this, tr)) = Inl NoSuchEntryError \<and>
      fst (changeShell userIdx shell (this, tr)) = Inl NoSuchEntryError)"
proof (intro conjI impI)
  assume none: "filter (\<lambda>r. users_idx r = userIdx) (users_table tr) = []"
  show "activate userIdx (this, tr) =
        (Inr (), this, tr\<lparr>issued := issued tr @ [''UPDATE users SET activated = TRUE WHERE idx = $1'']\<rparr>)"
    by (simp add: activate_run map_no_match[OF none])
  show "deactivate userIdx (this, tr) =
        (Inr (), this, tr\<lparr>issued := issued tr @ [''UPDATE users SET activated = FALSE WHERE idx = $1'']\<rparr>)"
    by (simp add: deactivate_run map_no_match[OF none])
  show "updateLastLoginAt userIdx (this, tr) =
        (Inr (), this, tr\<lparr>issued := issued tr @ [''UPDATE users SET last_login_at = NOW() WHERE idx = $1'']\<rparr>)"
    by (simp add: updateLastLoginAt_run map_no_match[OF none])
  show "fst (delete userIdx (this, tr)) = Inl NoSuchEntryError"
    by (simp add: delete_run none)
  show "fst (changePassword env userIdx newPassword (this, tr)) = Inl NoSuchEntryError"
    by (simp add: changePassword_run none)
  show "fst (changeShell userIdx shell (this, tr)) = Inl NoSuchEntryError"
    by (simp add: changeShell_run none)
qed (simp_all add: activate_run deactivate_run updateLastLoginAt_run)

theorem update_without_row_check_witness:
  "filter (\<lambda>r. users_idx r = 99) (users_table example_tr) = [] \<and>
   activate 99 (example_this, example_tr) =
     (Inr (), example_this, example_tr\<lparr>issued := issued example_tr @ [''UPDATE users SET activated = TRUE WHERE idx = $1'']\<rparr>) \<and>
   deactivate 99 (example_this, example_tr) =
     (Inr (), example_this, example_tr\<lparr>issued := issued example_tr @ [''UPDATE users SET activated = FALSE WHERE idx = $1'']\<rparr>) \<and>
   updateLastLoginAt 99 (example_this, example_tr) =
     (Inr (), example_this, example_tr\<lparr>issued := issued example_tr @ [''UPDATE users SET last_login_at = NOW() WHERE idx = $1'']\<rparr>) \<and>
   fst (delete 99 (example_this, example_tr)) = Inl NoSuchEntryError \<and>
   fst (changePassword example_env 99 [0x61] (example_this, example_tr)) = Inl NoSuchEntryError \<and>
   fst (changeShell 99 ''/bin/zsh'' (example_this, example_tr)) = Inl NoSuchEntryError"
proof -
  have none: "filter (\<lambda>r. users_idx r = 99) (users_table example_tr) = []"
    by (simp add: example_tr_def example_user_def)
  note u = update_without_row_check[of 99 example_this example_tr example_env "[0x61]" "''/bin/zsh''",
      THEN conjunct2, THEN conjunct2, THEN conjunct2, THEN mp, OF none]
  from none u[THEN conjunct1] u[THEN conjunct2, THEN conjunct1]
    u[THEN conjunct2, THEN conjunct2, THEN conjunct1]
    u[THEN conjunct2, THEN conjunct2, THEN conjunct2, THEN conjunct1]
    u[THEN conjunct2, THEN conjunct2, THEN conjunct2, THEN conjunct2, THEN conjunct1]
    u[THEN conjunct2, THEN conjunct2, THEN conjunct2, THEN conjunct2, THEN conjunct2]
  show ?thesis by (intro conjI)
qed

section \<open>Lookup by email address\<close>

lemma getUserIdxByEmailAddress_run:
  "fst (getUserIdxByEmailAddress env emailLocal emailDomain (this, tr)) =
     (case filter (email_matches env emailLocal emailDomain) (email_addresses_table tr) of
        [] \<Rightarrow> Inl NoSuchEntryError
      | r # _ \<Rightarrow> Inr (owner_idx r))"
proof -
  have m: "(\<lambda>r. sql_LOWER env (address_local r) = sql_LOWER env emailLocal \<and> address_domain r = emailDomain) =
      email_matches env emailLocal emailDomain"
    by (simp add: email_matches_def fun_eq_iff)
  show ?thesis
    by (simp add: getUserIdxByEmailAddress_def io_bind_def fst_in_tr_query select_email_owner_def m
        throw_def rows0_def return_def split: list.splits)
qed

lemma filter_only:
  assumes "r \<in> set xs" "P r" "\<And>r'. r' \<in> set xs \<Longrightarrow> P r' \<Longrightarrow> r' = r"
  shows "\<exists>rest. filter P xs = r # rest"
proof (cases "filter P xs")
  case Nil
  with assms(1,2) show ?thesis by (simp add: filter_empty_conv)
next
  case (Cons z zs)
  then have "z \<in> set (filter P xs)" by simp
  then have "z \<in> set xs" "P z" by simp_all
  then have "z = r" by (rule assms(3))
  with Cons show ?thesis by simp
qed

text \<open>
  C10, as amended. A lookup returns the owner of the first stored address whose local part
  equals the queried one after \<open>LOWER\<close> on both sides and whose domain equals the queried
  one as it is, and fails with \<open>NoSuchEntryError\<close> when there is none. For a stored address
  that is the only stored one of its spelling up to case: a lookup whose local part differs
  from it in case only returns its owner, and a lookup whose domain differs from it in
  case only fails with \<open>NoSuchEntryError\<close>. Without that condition neither holds: the
  lookup returns the owner of the first matching row, which can be another row.
\<close>

theorem getUserIdxByEmailAddress_case:
  "fst (getUserIdxByEmailAddress env emailLocal emailDomain (this, tr)) =
     (case filter (email_matches env emailLocal emailDomain) (email_addresses_table tr) of
        [] \<Rightarrow> Inl NoSuchEntryError
      | r # _ \<Rightarrow> Inr (owner_idx r)) \<and>
   (\<forall>r \<in> set (email_addresses_table tr). alone_up_to_case env (email_addresses_table tr) r \<longrightarrow>
      (sql_LOWER env emailLocal = sql_LOWER env (address_local r) \<longrightarrow>
         fst (getUserIdxByEmailAddress env emailLocal (address_domain r) (this, tr)) = Inr (owner_idx r)) \<and>
      (sql_LOWER env emailLocal = sql_LOWER env (address_local r) \<and>
       sql_LOWER env emailDomain = sql_LOWER env (address_domain r) \<and>
       emailDomain \<noteq> address_domain r \<longrightarrow>
         fst (getUserIdxByEmailAddress env emailLocal emailDomain (this, tr)) = Inl NoSuchEntryError))"
proof (intro conjI ballI impI)
  show "fst (getUserIdxByEmailAddress env emailLocal emailDomain (this, tr)) =
     (case filter (email_matches env emailLocal emailDomain) (email_addresses_table tr) of
        [] \<Rightarrow> Inl NoSuchEntryError
      | r # _ \<Rightarrow> Inr (owner_idx r))"
    by (rule getUserIdxByEmailAddress_run)
next
  fix r
  assume r: "r \<in> set (email_addresses_table tr)"
    and alone: "alone_up_to_case env (email_addresses_table tr) r"
  have only: "r' = r"
    if "r' \<in> set (email_addresses_table tr)"
      "sql_LOWER env (address_local r') = sql_LOWER env (address_local r)"
      "sql_LOWER env (address_domain r') = sql_LOWER env (address_domain r)" for r'
    using alone that unfolding alone_up_to_case_def list_all_iff by blast
  {
    assume l: "sql_LOWER env emailLocal = sql_LOWER env (address_local r)"
    have "\<exists>rest. filter (email_matches env emailLocal (address_domain r)) (email_addresses_table tr) = r # rest"
    proof (rule filter_only[OF r])
      show "email_matches env emailLocal (address_domain r) r" using l by (simp add: email_matches_def)
    next
      fix r'
      assume "r' \<in> set (email_addresses_table tr)" "email_matches env emailLocal (address_domain r) r'"
      then show "r' = r" using l by (intro only) (simp_all add: email_matches_def)
    qed
    then show "fst (getUserIdxByEmailAddress env emailLocal (address_domain r) (this, tr)) = Inr (owner_idx r)"
      unfolding getUserIdxByEmailAddress_run by auto
  }
  assume v: "sql_LOWER env emailLocal = sql_LOWER env (address_local r) \<and>
       sql_LOWER env emailDomain = sql_LOWER env (address_domain r) \<and>
       emailDomain \<noteq> address_domain r"
  have "filter (email_matches env emailLocal emailDomain) (email_addresses_table tr) = []"
  proof (rule ccontr)
    assume "filter (email_matches env emailLocal emailDomain) (email_addresses_table tr) \<noteq> []"
    then obtain r' where r': "r' \<in> set (email_addresses_table tr)" "email_matches env emailLocal emailDomain r'"
      by (auto simp: filter_empty_conv)
    then have "r' = r" using v by (intro only) (simp_all add: email_matches_def)
    with r'(2) v show False by (simp add: email_matches_def)
  qed
  then show "fst (getUserIdxByEmailAddress env emailLocal emailDomain (this, tr)) = Inl NoSuchEntryError"
    unfolding getUserIdxByEmailAddress_run by simp
qed

theorem getUserIdxByEmailAddress_case_witness:
  "email_addresses_table example_tr =
     [\<lparr>owner_idx = Some 2, address_local = ''alice'', address_domain = ''snu.ac.kr''\<rparr>,
      \<lparr>owner_idx = Some 1, address_local = ''Bob'', address_domain = ''snu.ac.kr''\<rparr>,
      \<lparr>owner_idx = None, address_local = ''bob'', address_domain = ''example.com''\<rparr>] \<and>
   fst (getUserIdxByEmailAddress example_env ''bOB'' ''snu.ac.kr'' (example_this, example_tr)) = Inr (Some 1) \<and>
   fst (getUserIdxByEmailAddress example_env ''Bob'' ''SNU.ac.kr'' (example_this, example_tr)) = Inl NoSuchEntryError"
proof -
  let ?r = "\<lparr>owner_idx = Some 1, address_local = ''Bob'', address_domain = ''snu.ac.kr''\<rparr>"
  have tbl: "email_addresses_table example_tr =
     [\<lparr>owner_idx = Some 2, address_local = ''alice'', address_domain = ''snu.ac.kr''\<rparr>, ?r,
      \<lparr>owner_idx = None, address_local = ''bob'', address_domain = ''example.com''\<rparr>]"
    by (simp add: example_tr_def)
  have r: "?r \<in> set (email_addresses_table example_tr)" unfolding tbl by simp
  have lo: "sql_LOWER example_env = ascii_lower" by (simp add: example_env_def)
  have alone: "alone_up_to_case example_env (email_addresses_table example_tr) ?r"
    unfolding tbl by (simp add: alone_up_to_case_def lo ascii_lower_def)
  have l1: "sql_LOWER example_env ''bOB'' = sql_LOWER example_env (address_local ?r)"
    unfolding lo by (simp add: ascii_lower_def)
  have l2: "sql_LOWER example_env ''Bob'' = sql_LOWER example_env (address_local ?r) \<and>
       sql_LOWER example_env ''SNU.ac.kr'' = sql_LOWER example_env (address_domain ?r) \<and>
       ''SNU.ac.kr'' \<noteq> address_domain ?r"
    unfolding lo by (simp add: ascii_lower_def)
  note a = getUserIdxByEmailAddress_case[of example_env "''bOB''" _ example_this example_tr,
      THEN conjunct2, THEN bspec, OF r, THEN mp, OF alone, THEN conjunct1, THEN mp, OF l1]
  note b = getUserIdxByEmailAddress_case[of example_env "''Bob''" "''SNU.ac.kr''" example_this example_tr,
      THEN conjunct2, THEN bspec, OF r, THEN mp, OF alone, THEN conjunct2, THEN mp, OF l2]
  have a': "fst (getUserIdxByEmailAddress example_env ''bOB'' ''snu.ac.kr'' (example_this, example_tr)) = Inr (Some 1)"
    using a by simp
  from tbl a' b show ?thesis by (intro conjI)
qed

theorem getUserIdxByEmailAddress_case_counterexample:
  "email_addresses_table example_tr_domain_variants =
     [\<lparr>owner_idx = Some 1, address_local = ''Bob'', address_domain = ''snu.ac.kr''\<rparr>,
      \<lparr>owner_idx = Some 2, address_local = ''Bob'', address_domain = ''SNU.ac.kr''\<rparr>] \<and>
   sql_LOWER example_env ''SNU.ac.kr'' = sql_LOWER example_env ''snu.ac.kr'' \<and>
   fst (getUserIdxByEmailAddress example_env ''Bob'' ''SNU.ac.kr''
          (example_this, example_tr_domain_variants)) = Inr (Some 2) \<and>
   fst (getUserIdxByEmailAddress example_env ''Bob'' ''SNU.ac.kr''
          (example_this, example_tr_domain_variants)) \<noteq> Inl NoSuchEntryError \<and>
   email_addresses_table example_tr_local_variants =
     [\<lparr>owner_idx = Some 7, address_local = ''bob'', address_domain = ''snu.ac.kr''\<rparr>,
      \<lparr>owner_idx = Some 1, address_local = ''Bob'', address_domain = ''snu.ac.kr''\<rparr>] \<and>
   sql_LOWER example_env ''BOB'' = sql_LOWER example_env ''Bob'' \<and>
   fst (getUserIdxByEmailAddress example_env ''BOB'' ''snu.ac.kr''
          (example_this, example_tr_local_variants)) = Inr (Some 7) \<and>
   fst (getUserIdxByEmailAddress example_env ''BOB'' ''snu.ac.kr''
          (example_this, example_tr_local_variants)) \<noteq> Inr (Some 1)"
proof -
  have lo: "sql_LOWER example_env = ascii_lower" by (simp add: example_env_def)
  have t1: "email_addresses_table example_tr_domain_variants =
     [\<lparr>owner_idx = Some 1, address_local = ''Bob'', address_domain = ''snu.ac.kr''\<rparr>,
      \<lparr>owner_idx = Some 2, address_local = ''Bob'', address_domain = ''SNU.ac.kr''\<rparr>]"
    by (simp add: example_tr_domain_variants_def)
  have t2: "email_addresses_table example_tr_local_variants =
     [\<lparr>owner_idx = Some 7, address_local = ''bob'', address_domain = ''snu.ac.kr''\<rparr>,
      \<lparr>owner_idx = Some 1, address_local = ''Bob'', address_domain = ''snu.ac.kr''\<rparr>]"
    by (simp add: example_tr_local_variants_def)
  have d: "sql_LOWER example_env ''SNU.ac.kr'' = sql_LOWER example_env ''snu.ac.kr''"
    unfolding lo by (simp add: ascii_lower_def)
  have l: "sql_LOWER example_env ''BOB'' = sql_LOWER example_env ''Bob''"
    unfolding lo by (simp add: ascii_lower_def)
  have r1: "fst (getUserIdxByEmailAddress example_env ''Bob'' ''SNU.ac.kr''
          (example_this, example_tr_domain_variants)) = Inr (Some 2)"
    unfolding getUserIdxByEmailAddress_run t1
    by (simp add: email_matches_def lo ascii_lower_def)
  have r2: "fst (getUserIdxByEmailAddress example_env ''BOB'' ''snu.ac.kr''
          (example_this, example_tr_local_variants)) = Inr (Some 7)"
    unfolding getUserIdxByEmailAddress_run t2
    by (simp add: email_matches_def lo ascii_lower_def)
  from t1 d r1 t2 l r2 show ?thesis by simp
qed

end
